theory Spec2Isabelle
  imports Main
begin

section \<open>Strings\<close>

text \<open>
  A Python \<open>str\<close> is modelled as a \<open>string\<close>; one \<open>char\<close> stands for one code point
  below 256, so \<open>length\<close> is Python's \<open>len\<close> on such strings.
\<close>

definition ascii_lowercase :: string where
  "ascii_lowercase = ''abcdefghijklmnopqrstuvwxyz''"

definition ascii_uppercase :: string where
  "ascii_uppercase = ''ABCDEFGHIJKLMNOPQRSTUVWXYZ''"

definition ascii_letters :: string where
  "ascii_letters = ascii_lowercase @ ascii_uppercase"

definition digits :: string where
  "digits = ''0123456789''"

definition isspace :: "char \<Rightarrow> bool" where
  \<comment> \<open>\<open>str.isspace\<close> on the code points below 256: TAB, LF, VT, FF, CR, FS, GS, RS, US,
      SPACE, NEL (0x85) and NBSP (0xA0).\<close>
  "isspace c =
     (let n = (of_char c :: nat)
      in (9 \<le> n \<and> n \<le> 13) \<or> (28 \<le> n \<and> n \<le> 32) \<or> n = 133 \<or> n = 160)"

definition strip :: "string \<Rightarrow> string" where
  \<comment> \<open>\<open>str.strip()\<close>: leading and trailing whitespace removed.\<close>
  "strip s = rev (dropWhile isspace (rev (dropWhile isspace s)))"

section \<open>Constants of the application\<close>

definition CODE_CHARS :: string where
  "CODE_CHARS = ascii_letters @ digits"

definition CODE_LEN :: nat where
  "CODE_LEN = 6"

definition MAX_URL_LEN :: nat where
  "MAX_URL_LEN = 2048"

definition RATE_LIMIT_BURST :: nat where
  "RATE_LIMIT_BURST = 10"

definition RATE_LIMIT_WINDOW :: int where
  "RATE_LIMIT_WINDOW = 60"

text \<open>
  \<open>CUSTOM_CODE_REGEX = re.compile(r"^[A-Za-z0-9_-]{3,32}$")\<close>, used through \<open>.match\<close>.
  Python's \<open>$\<close> matches at the end of the string and also just before one final newline.
\<close>

definition code_class :: "char \<Rightarrow> bool" where
  "code_class c = (c \<in> set (ascii_uppercase @ ascii_lowercase @ digits @ ''_-''))"

definition code_body :: "string \<Rightarrow> bool" where
  "code_body s = (3 \<le> length s \<and> length s \<le> 32 \<and> list_all code_class s)"

definition CUSTOM_CODE_REGEX_match :: "string \<Rightarrow> bool" where
  "CUSTOM_CODE_REGEX_match s =
     (code_body s \<or> (s \<noteq> [] \<and> last s = CHR 0x0A \<and> code_body (butlast s)))"

section \<open>URL parsing\<close>

text \<open>
  \<open>urlparse\<close> belongs to Python's standard library, not to the application. Of its result
  \<open>normalize_url\<close> reads the fields \<open>scheme\<close> and \<open>netloc\<close> only; the call may also raise
  \<open>ValueError\<close>. The application's functions take the parser as an argument, so that
  what is proved about them holds for whatever the library computes.
\<close>

datatype error =
    TooManyRequests      \<comment> \<open>429, \<open>"Too many requests"\<close>\<close>
  | UnsupportedScheme    \<comment> \<open>\<open>ValueError("Only http/https URLs are supported.")\<close>\<close>
  | InvalidHost          \<comment> \<open>\<open>ValueError("Invalid URL host.")\<close>\<close>
  | URLTooLong           \<comment> \<open>\<open>ValueError("URL is too long.")\<close>\<close>
  | ParseFailure         \<comment> \<open>a \<open>ValueError\<close> raised inside \<open>urlparse\<close> itself\<close>
  | InvalidCodeFormat    \<comment> \<open>\<open>"Custom code: 3-32 chars (A-Z, a-z, 0-9, _ or -)"\<close>\<close>
  | CodeTaken            \<comment> \<open>\<open>"That code is already taken"\<close>\<close>

record parse_result =
  scheme :: string
  netloc :: string

type_synonym parser = "string \<Rightarrow> error + parse_result"

text \<open>
  A model of the library's \<open>urlsplit\<close> (CPython 3.12), restricted to the two fields:
  leading C0 controls and spaces are dropped, TAB, CR and LF are removed, a scheme is a
  prefix before the first colon that starts with an ASCII letter and consists of scheme
  characters, and the authority follows \<open>//\<close> up to the first of \<open>/ ? #\<close>. A bracket without
  its partner is rejected; how the library validates a bracketed host literal is the
  argument \<open>bracketed_ok\<close>. It serves as the concrete parser of the examples.
\<close>

definition scheme_chars :: string where
  "scheme_chars = ascii_letters @ digits @ ''+-.''"

definition lower :: "char \<Rightarrow> char" where
  "lower c = (if c \<in> set ascii_uppercase then char_of (of_char c + (32 :: nat)) else c)"

definition split_scheme :: "string \<Rightarrow> string \<times> string" where
  "split_scheme url =
     (let pre = takeWhile (\<lambda>c. c \<noteq> CHR '':'') url
      in if CHR '':'' \<in> set url \<and> pre \<noteq> [] \<and> hd url \<in> set ascii_letters
            \<and> list_all (\<lambda>c. c \<in> set scheme_chars) pre
         then (map lower pre, drop (Suc (length pre)) url)
         else ([], url))"

definition splitnetloc :: "string \<Rightarrow> string" where
  "splitnetloc url = takeWhile (\<lambda>c. c \<notin> set ''/?#'') (drop 2 url)"

definition py_urlparse :: "(string \<Rightarrow> bool) \<Rightarrow> parser" where
  "py_urlparse bracketed_ok url0 =
     (let url1 = dropWhile (\<lambda>c. (of_char c :: nat) \<le> 32) url0;
          url2 = filter (\<lambda>c. c \<notin> {CHR 0x09, CHR 0x0D, CHR 0x0A}) url1;
          (sch, url) = split_scheme url2
      in if take 2 url = ''//'' then
           (let nl = splitnetloc url;
                lb = (CHR ''['' \<in> set nl);
                rb = (CHR '']'' \<in> set nl)
            in if (lb \<and> \<not> rb) \<or> (rb \<and> \<not> lb) then Inl ParseFailure
               else if lb \<and> rb \<and> \<not> bracketed_ok nl then Inl ParseFailure
               else Inr \<lparr>scheme = sch, netloc = nl\<rparr>)
         else Inr \<lparr>scheme = sch, netloc = []\<rparr>)"

section \<open>Utilities\<close>

definition check_url :: "parse_result \<Rightarrow> string \<Rightarrow> error + string" where
  \<comment> \<open>the three checks that end \<open>normalize_url\<close>, in the order of the source\<close>
  "check_url parsed u =
     (if scheme parsed \<notin> {''http'', ''https''} then Inl UnsupportedScheme
      else if netloc parsed = [] then Inl InvalidHost
      else if length u > MAX_URL_LEN then Inl URLTooLong
      else Inr u)"

definition normalize_url :: "parser \<Rightarrow> string \<Rightarrow> error + string" where
  "normalize_url urlparse u0 =
     (let u = strip u0
      in if u = [] then Inr u
         else case urlparse u of
                Inl e \<Rightarrow> Inl e
              | Inr parsed \<Rightarrow>
                  if scheme parsed = [] then
                    (let u' = ''https://'' @ u
                     in case urlparse u' of
                          Inl e \<Rightarrow> Inl e
                        | Inr parsed' \<Rightarrow> check_url parsed' u')
                  else check_url parsed u)"

text \<open>
  \<open>random_code\<close> draws each character with \<open>secrets.choice\<close>. The random source is an
  oracle: \<open>rnd i\<close> is the number behind the \<open>i\<close>-th draw, reduced into the range of the
  alphabet as \<open>secrets.choice\<close> does.
\<close>

definition choice :: "nat \<Rightarrow> 'a list \<Rightarrow> 'a" where
  "choice r xs = xs ! (r mod length xs)"

definition random_code :: "(nat \<Rightarrow> nat) \<Rightarrow> nat \<Rightarrow> nat \<Rightarrow> string" where
  "random_code rnd k n = map (\<lambda>j. choice (rnd (k + j)) CODE_CHARS) [0..<n]"

section \<open>Rate limiter\<close>

text \<open>
  A \<open>datetime\<close> is a whole number of microseconds; \<open>timedelta(seconds=s)\<close> is
  \<open>s * 1000000\<close> of them. \<open>_rate_bucket\<close> is a dictionary from keys to lists of instants.
\<close>

type_synonym instant = int

type_synonym rate_bucket = "string \<rightharpoonup> instant list"

definition timedelta_seconds :: "int \<Rightarrow> int" where
  "timedelta_seconds s = s * 1000000"

definition bucket_get :: "rate_bucket \<Rightarrow> string \<Rightarrow> instant list" where
  \<comment> \<open>\<open>_rate_bucket.get(key, [])\<close>\<close>
  "bucket_get rb key = (case rb key of None \<Rightarrow> [] | Some b \<Rightarrow> b)"

definition rate_limited :: "instant \<Rightarrow> string \<Rightarrow> rate_bucket \<Rightarrow> bool \<times> rate_bucket" where
  "rate_limited now key rb =
     (let window_start = now - timedelta_seconds RATE_LIMIT_WINDOW;
          bucket = bucket_get rb key;
          bucket = filter (\<lambda>t. t > window_start) bucket;
          allowed = (length bucket < RATE_LIMIT_BURST);
          bucket = (if allowed then bucket @ [now] else bucket)
      in (\<not> allowed, rb(key \<mapsto> bucket)))"

section \<open>The table of links\<close>

text \<open>
  The table \<open>urls\<close> is a list of rows, so that whether two rows can share a code is a
  property to prove and not a property of the type. \<open>datetime('now')\<close> has a resolution
  of one second.

  The column \<open>clicks\<close> holds an SQLite number: a signed 64-bit \<open>INTEGER\<close> or, once
  \<open>clicks+1\<close> has overflowed, a \<open>REAL\<close>. SQLite does not wrap: the sum of two integers that
  leaves the 64-bit range is computed in floating point, the column keeps it as a \<open>REAL\<close>
  (\<open>9.223372036854775808e18\<close> is no 64-bit integer), and a \<open>REAL\<close> plus one is a \<open>REAL\<close> again.
  The floating-point value itself is not modelled.
\<close>

datatype sql_number =
    SqlInteger int
  | SqlReal

definition sql_plus_one :: "sql_number \<Rightarrow> sql_number" where
  \<comment> \<open>the SQL expression \<open>clicks+1\<close>\<close>
  "sql_plus_one v =
     (case v of
        SqlInteger n \<Rightarrow> if n + 1 \<le> 9223372036854775807 then SqlInteger (n + 1) else SqlReal
      | SqlReal \<Rightarrow> SqlReal)"

record link =
  code :: string
  long_url :: string
  created_at :: int
  clicks :: sql_number
  last_accessed :: "int option"

type_synonym urls = "link list"

definition datetime_now :: "instant \<Rightarrow> int" where
  "datetime_now now = now div 1000000"

definition select_by_code :: "urls \<Rightarrow> string \<Rightarrow> link option" where
  \<comment> \<open>\<open>SELECT ... FROM urls WHERE code=?\<close> followed by \<open>fetchone()\<close>\<close>
  "select_by_code db c = find (\<lambda>r. code r = c) db"

definition insert_url :: "instant \<Rightarrow> string \<Rightarrow> string \<Rightarrow> urls \<Rightarrow> urls option" where
  \<comment> \<open>\<open>INSERT INTO urls (code, long_url) VALUES (?, ?)\<close>; the primary key on \<open>code\<close>
      makes it raise \<open>sqlite3.IntegrityError\<close> (\<open>None\<close>) when a row has that code.\<close>
  "insert_url now c u db =
     (if c \<in> set (map code db) then None
      else Some (db @ [\<lparr>code = c, long_url = u, created_at = datetime_now now,
                        clicks = SqlInteger 0, last_accessed = None\<rparr>]))"

definition update_clicks :: "instant \<Rightarrow> string \<Rightarrow> urls \<Rightarrow> urls" where
  \<comment> \<open>\<open>UPDATE urls SET clicks=clicks+1, last_accessed=datetime('now') WHERE code=?\<close>\<close>
  "update_clicks now c db =
     map (\<lambda>r. if code r = c
               then r\<lparr>clicks := sql_plus_one (clicks r),
                      last_accessed := Some (datetime_now now)\<rparr>
               else r) db"

section \<open>Request handlers\<close>

record state =
  rate_bucket :: rate_bucket
  urls :: urls

definition init_state :: state where
  \<comment> \<open>\<open>_rate_bucket = {}\<close> and the table as \<open>init_db\<close> creates it\<close>
  "init_state = \<lparr>rate_bucket = Map.empty, urls = []\<rparr>"

text \<open>
  A request carries, besides the caller's address and the form fields, the instant it is
  served at and the random source it draws from.
\<close>

record request =
  remote_addr :: string
  form_long_url :: "string option"
  form_custom_code :: "string option"
  req_time :: instant
  req_random :: "nat \<Rightarrow> nat"

definition form_get :: "string option \<Rightarrow> string" where
  \<comment> \<open>\<open>request.form.get(name, "")\<close>\<close>
  "form_get field = (case field of None \<Rightarrow> [] | Some v \<Rightarrow> v)"

text \<open>
  The loop \<open>for _ in range(10)\<close> of \<open>create\<close>: \<open>n\<close> iterations remain, \<open>k\<close> draws have been
  used, \<open>c\<close> is the value of \<open>code\<close> so far (unbound before the first iteration).
\<close>

fun retry_loop :: "(nat \<Rightarrow> nat) \<Rightarrow> urls \<Rightarrow> nat \<Rightarrow> nat \<Rightarrow> string \<Rightarrow> string" where
  "retry_loop rand db k 0 c = c"
| "retry_loop rand db k (Suc n) c =
     (let c' = random_code rand k CODE_LEN
      in if select_by_code db c' = None then c'
         else retry_loop rand db (k + CODE_LEN) n c')"

definition create :: "parser \<Rightarrow> request \<Rightarrow> state \<Rightarrow> (error + string \<times> string) \<times> state" where
  "create urlparse rq st =
     (let client_ip = remote_addr rq;
          (limited, rb) = rate_limited (req_time rq) (''create:'' @ client_ip) (rate_bucket st);
          st = st\<lparr>rate_bucket := rb\<rparr>
      in if limited then (Inl TooManyRequests, st)
         else
           (let custom_code = strip (form_get (form_custom_code rq))
            in case normalize_url urlparse (form_get (form_long_url rq)) of
                 Inl e \<Rightarrow> (Inl e, st)
               | Inr url \<Rightarrow>
                   if custom_code \<noteq> [] \<and> \<not> CUSTOM_CODE_REGEX_match custom_code
                   then (Inl InvalidCodeFormat, st)
                   else
                     (let c = (if custom_code \<noteq> [] then custom_code
                               else retry_loop (req_random rq) (urls st) 0 10 [])
                      in case insert_url (req_time rq) c url (urls st) of
                           None \<Rightarrow> (Inl CodeTaken, st)
                         | Some db \<Rightarrow> (Inr (c, url), st\<lparr>urls := db\<rparr>))))"

text \<open>
  \<open>go\<close> has no exception handler. \<open>update_raises\<close> says whether the \<open>UPDATE\<close> or its
  commit raises; the exception then leaves \<open>go\<close> and the transaction is not committed.
  \<open>redirect\<close> belongs to the web framework and is an argument of \<open>go\<close>, as the parser is
  of \<open>normalize_url\<close>: it builds the response or raises, and it runs after the commit, so
  the row is already updated when it raises.
\<close>

datatype go_result =
    Redirect string
  | NotFound            \<comment> \<open>\<open>abort(404)\<close>\<close>
  | Uncaught            \<comment> \<open>an exception leaving the handler\<close>

type_synonym redirector = "string \<Rightarrow> go_result"

definition go :: "redirector \<Rightarrow> bool \<Rightarrow> instant \<Rightarrow> string \<Rightarrow> urls \<Rightarrow> go_result \<times> urls" where
  "go redirect update_raises t c db =
     (case select_by_code db c of
        None \<Rightarrow> (NotFound, db)
      | Some row \<Rightarrow>
          if update_raises then (Uncaught, db)
          else (redirect (long_url row), update_clicks t c db))"

text \<open>
  A model of the framework's \<open>redirect\<close>: the response carries the location in a header,
  and a header value that holds CR or LF is refused with \<open>ValueError\<close>. It serves as the
  concrete redirector of the examples.
\<close>

definition flask_redirect :: redirector where
  "flask_redirect location =
     (if CHR 0x0D \<in> set location \<or> CHR 0x0A \<in> set location then Uncaught
      else Redirect location)"

section \<open>Sequences of requests\<close>

text \<open>The admission checks of one key at the instants \<open>ts\<close>, in order.\<close>

fun rate_limited_seq :: "string \<Rightarrow> instant list \<Rightarrow> rate_bucket \<Rightarrow> bool list \<times> rate_bucket" where
  "rate_limited_seq key [] rb = ([], rb)"
| "rate_limited_seq key (t # ts) rb =
     (let (limited, rb') = rate_limited t key rb;
          (rest, rb'') = rate_limited_seq key ts rb'
      in (limited # rest, rb''))"

text \<open>Redirects of one code at the instants \<open>ts\<close>, in order, none of them failing.\<close>

fun go_seq :: "redirector \<Rightarrow> instant list \<Rightarrow> string \<Rightarrow> urls \<Rightarrow> go_result list \<times> urls" where
  "go_seq redirect [] c db = ([], db)"
| "go_seq redirect (t # ts) c db =
     (let (r, db') = go redirect False t c db;
          (rs, db'') = go_seq redirect ts c db'
      in (r # rs, db''))"

text \<open>Any mix of the two handlers, each request with its own inputs.\<close>

datatype operation =
    Shorten request
  | Resolve bool instant string

fun step :: "parser \<Rightarrow> redirector \<Rightarrow> state \<Rightarrow> operation \<Rightarrow> state" where
  "step urlparse redirect st (Shorten rq) = snd (create urlparse rq st)"
| "step urlparse redirect st (Resolve update_raises t c) =
     st\<lparr>urls := snd (go redirect update_raises t c (urls st))\<rparr>"

definition run :: "parser \<Rightarrow> redirector \<Rightarrow> operation list \<Rightarrow> state \<Rightarrow> state" where
  "run urlparse redirect ops st = foldl (step urlparse redirect) st ops"

section \<open>Normalisation as the specification words it\<close>

text \<open>
  Trim; prepend \<open>https://\<close> when no scheme is present; then the three rejections in
  order; otherwise the normalised URL. No case is made of a blank input.

  The host component of a URL is the host name inside its authority, as the library's
  \<open>hostname\<close> reads it from \<open>netloc\<close>: what follows the last \<open>@\<close>, up to the first colon, or
  between the brackets of a bracketed literal. An authority such as \<open>:80\<close> or \<open>user@\<close> has
  none.
\<close>

definition hostname :: "string \<Rightarrow> string" where
  "hostname nl =
     (let hostinfo = rev (takeWhile (\<lambda>c. c \<noteq> CHR ''@'') (rev nl))
      in if CHR ''['' \<in> set hostinfo
         then takeWhile (\<lambda>c. c \<noteq> CHR '']'') (drop 1 (dropWhile (\<lambda>c. c \<noteq> CHR ''['') hostinfo))
         else takeWhile (\<lambda>c. c \<noteq> CHR '':'') hostinfo)"

definition normalize_url_spec :: "parser \<Rightarrow> string \<Rightarrow> error + string" where
  "normalize_url_spec urlparse raw =
     (let t = strip raw
      in case urlparse t of
           Inl e \<Rightarrow> Inl e
         | Inr p \<Rightarrow>
             (let u = (if scheme p = [] then ''https://'' @ t else t)
              in case urlparse u of
                   Inl e \<Rightarrow> Inl e
                 | Inr q \<Rightarrow>
                     if scheme q \<noteq> ''http'' \<and> scheme q \<noteq> ''https'' then Inl UnsupportedScheme
                     else if hostname (netloc q) = [] then Inl InvalidHost
                     else if length u > 2048 then Inl URLTooLong
                     else Inr u))"

section \<open>Properties of normalisation\<close>

lemma strip_Nil: "strip [] = []"
  by (simp add: strip_def)

lemma strip_prefix:
  "dropWhile isspace s = strip s @ rev (takeWhile isspace (rev (dropWhile isspace s)))"
  unfolding strip_def by (metis rev_append rev_rev_ident takeWhile_dropWhile_id)

lemma strip_ends:
  assumes "strip s \<noteq> []"
  shows "\<not> isspace (hd (strip s))" and "\<not> isspace (last (strip s))"
proof -
  let ?d = "dropWhile isspace s"
  have d: "?d \<noteq> []"
  proof
    assume e: "?d = []"
    have "strip s = rev (dropWhile isspace (rev ?d))" by (simp only: strip_def)
    also have "\<dots> = []" by (simp only: e rev.simps dropWhile.simps)
    finally show False using assms by simp
  qed
  have "hd ?d = hd (strip s)"
    using assms strip_prefix [of s] by (metis hd_append2)
  moreover have "\<not> isspace (hd ?d)" using d by (rule hd_dropWhile)
  ultimately show "\<not> isspace (hd (strip s))" by simp
  from assms have r: "dropWhile isspace (rev ?d) \<noteq> []" by (simp add: strip_def)
  have "last (strip s) = hd (dropWhile isspace (rev ?d))"
    using r by (simp add: strip_def last_rev)
  moreover have "\<not> isspace (hd (dropWhile isspace (rev ?d)))" using r by (rule hd_dropWhile)
  ultimately show "\<not> isspace (last (strip s))" by simp
qed

lemma strip_fixed:
  assumes "s \<noteq> []" "\<not> isspace (hd s)" "\<not> isspace (last s)"
  shows "strip s = s"
proof -
  from assms obtain x xs where s: "s = x # xs" by (cases s) auto
  with assms have d: "dropWhile isspace s = s" by simp
  from assms have "rev s \<noteq> []" "\<not> isspace (hd (rev s))" by (simp_all add: hd_rev)
  then have "dropWhile isspace (rev s) = rev s" by (cases "rev s") auto
  with d show ?thesis by (simp add: strip_def)
qed

lemma strip_strip: "strip (strip s) = strip s"
proof (cases "strip s = []")
  case True then show ?thesis by (simp add: strip_Nil)
next
  case False then show ?thesis using strip_ends [of s] by (intro strip_fixed) auto
qed

lemma strip_https:
  assumes "strip s \<noteq> []"
  shows "strip (''https://'' @ strip s) = ''https://'' @ strip s"
proof (rule strip_fixed)
  show "''https://'' @ strip s \<noteq> []" by simp
  show "\<not> isspace (hd (''https://'' @ strip s))" by (simp add: isspace_def)
  show "\<not> isspace (last (''https://'' @ strip s))" using assms strip_ends(2) [of s] by simp
qed

lemma check_url_Inr:
  "check_url p u = Inr v \<Longrightarrow>
   v = u \<and> scheme p \<noteq> [] \<and> scheme p \<in> {''http'', ''https''} \<and> netloc p \<noteq> []
   \<and> length u \<le> MAX_URL_LEN"
  by (auto simp: check_url_def split: if_splits)

text \<open>
  Claim C9. Normalisation is idempotent: whenever \<open>normalize_url\<close> succeeds on an input,
  applying it to its own output succeeds as well and returns that output unchanged. This
  holds for every parser.
\<close>

theorem normalize_url_idempotent:
  assumes "normalize_url urlparse u = Inr v"
  shows "normalize_url urlparse v = Inr v"
proof (cases "strip u = []")
  case True
  with assms have "v = []" by (simp add: normalize_url_def)
  then show ?thesis by (simp add: normalize_url_def strip_Nil)
next
  case False
  with assms obtain p where p: "urlparse (strip u) = Inr p"
    by (cases "urlparse (strip u)") (auto simp: normalize_url_def)
  show ?thesis
  proof (cases "scheme p = []")
    case True
    let ?u' = "''https://'' @ strip u"
    from assms False p True obtain q where q: "urlparse ?u' = Inr q" and c: "check_url q ?u' = Inr v"
      by (cases "urlparse ?u'") (auto simp: normalize_url_def)
    from c have v: "v = ?u'" and s: "scheme q \<noteq> []" using check_url_Inr by blast+
    have "strip v = v" unfolding v using False by (rule strip_https)
    with v q s c show ?thesis by (simp add: normalize_url_def)
  next
    case nonempty: False
    from assms False p nonempty have c: "check_url p (strip u) = Inr v"
      by (simp add: normalize_url_def)
    then have v: "v = strip u" using check_url_Inr by blast
    have "strip v = v" unfolding v by (rule strip_strip)
    with v p nonempty c False show ?thesis by (simp add: normalize_url_def)
  qed
qed

lemmas py_defs = normalize_url_def py_urlparse_def strip_def isspace_def split_scheme_def
  splitnetloc_def check_url_def MAX_URL_LEN_def ascii_letters_def ascii_lowercase_def
  ascii_uppercase_def scheme_chars_def digits_def lower_def

theorem normalize_url_idempotent_witness:
  "normalize_url (py_urlparse (\<lambda>_. True)) ''  example.com/x '' = Inr ''https://example.com/x''
   \<and> normalize_url (py_urlparse (\<lambda>_. True)) ''https://example.com/x'' = Inr ''https://example.com/x''"
proof -
  have h: "normalize_url (py_urlparse (\<lambda>_. True)) ''  example.com/x '' = Inr ''https://example.com/x''"
    by (simp add: py_defs)
  from h normalize_url_idempotent [OF h] show ?thesis by simp
qed

lemma hostname_Nil: "hostname [] = []"
  by (simp add: hostname_def)

lemma normalize_url_vs_spec:
  assumes "strip raw \<noteq> []"
  shows "normalize_url urlparse raw = normalize_url_spec urlparse raw
     \<or> (\<exists>q u. (u = strip raw \<or> u = ''https://'' @ strip raw) \<and> urlparse u = Inr q
           \<and> scheme q \<in> {''http'', ''https''} \<and> netloc q \<noteq> [] \<and> hostname (netloc q) = []
           \<and> normalize_url_spec urlparse raw = Inl InvalidHost
           \<and> normalize_url urlparse raw = (if length u > 2048 then Inl URLTooLong else Inr u))"
proof (cases "urlparse (strip raw)")
  case (Inl e)
  with assms show ?thesis by (simp add: normalize_url_def normalize_url_spec_def)
next
  case (Inr p)
  define u where "u = (if scheme p = [] then ''https://'' @ strip raw else strip raw)"
  have u: "u = strip raw \<or> u = ''https://'' @ strip raw" by (simp add: u_def)
  show ?thesis
  proof (cases "urlparse u")
    case (Inl e)
    with assms Inr show ?thesis
      by (auto simp: normalize_url_def normalize_url_spec_def u_def split: if_splits)
  next
    case q: (Inr q)
    have code: "normalize_url urlparse raw = check_url q u"
      using assms Inr q by (auto simp: normalize_url_def u_def split: if_splits)
    have spec: "normalize_url_spec urlparse raw =
        (if scheme q \<noteq> ''http'' \<and> scheme q \<noteq> ''https'' then Inl UnsupportedScheme
         else if hostname (netloc q) = [] then Inl InvalidHost
         else if length u > 2048 then Inl URLTooLong
         else Inr u)"
      using Inr q by (auto simp: normalize_url_spec_def u_def Let_def split: if_splits)
    show ?thesis
    proof (cases "scheme q \<in> {''http'', ''https''} \<and> netloc q \<noteq> [] \<and> hostname (netloc q) = []")
      case True
      with code spec have "normalize_url_spec urlparse raw = Inl InvalidHost"
        and "normalize_url urlparse raw = (if length u > 2048 then Inl URLTooLong else Inr u)"
        by (auto simp: check_url_def MAX_URL_LEN_def)
      with True u q show ?thesis by blast
    next
      case False
      with code spec have "normalize_url urlparse raw = normalize_url_spec urlparse raw"
        by (auto simp: check_url_def MAX_URL_LEN_def hostname_Nil)
      then show ?thesis by blast
    qed
  qed
qed

text \<open>
  Claim C4, amended. A blank string is returned as the empty string, with no check at
  all. For every other raw string \<open>normalize_url\<close> does what the specification words (trim,
  prepend \<open>https://\<close> when the parser finds no scheme, reject with \<open>UnsupportedScheme\<close>,
  \<open>InvalidHost\<close>, \<open>URLTooLong\<close> in this order, otherwise return the normalised URL; an error
  of the parser itself is passed on), with one exception: the code tests the authority
  and not the host, so a URL with scheme http or https whose authority is not empty but
  holds no host, which the specification rejects with \<open>InvalidHost\<close>, goes on to the length
  check and is returned when it is short enough.
\<close>

theorem normalize_url_cases:
  "(strip raw = [] \<longrightarrow> normalize_url urlparse raw = Inr [])
   \<and> (\<forall>p q. strip raw \<noteq> [] \<and> urlparse (strip raw) = Inr p
          \<and> urlparse (if scheme p = [] then ''https://'' @ strip raw else strip raw) = Inr q \<longrightarrow>
        normalize_url urlparse raw =
          (let u = (if scheme p = [] then ''https://'' @ strip raw else strip raw)
           in if scheme q \<noteq> ''http'' \<and> scheme q \<noteq> ''https'' then Inl UnsupportedScheme
              else if netloc q = [] then Inl InvalidHost
              else if length u > 2048 then Inl URLTooLong
              else Inr u))
   \<and> (strip raw \<noteq> [] \<longrightarrow>
        normalize_url urlparse raw = normalize_url_spec urlparse raw
        \<or> (\<exists>q u. (u = strip raw \<or> u = ''https://'' @ strip raw) \<and> urlparse u = Inr q
              \<and> scheme q \<in> {''http'', ''https''} \<and> netloc q \<noteq> [] \<and> hostname (netloc q) = []
              \<and> normalize_url_spec urlparse raw = Inl InvalidHost
              \<and> normalize_url urlparse raw = (if length u > 2048 then Inl URLTooLong else Inr u)))"
proof (intro conjI allI impI)
  assume "strip raw = []"
  then show "normalize_url urlparse raw = Inr []" by (simp add: normalize_url_def)
next
  fix p q
  assume "strip raw \<noteq> [] \<and> urlparse (strip raw) = Inr p
          \<and> urlparse (if scheme p = [] then ''https://'' @ strip raw else strip raw) = Inr q"
  then show "normalize_url urlparse raw =
          (let u = (if scheme p = [] then ''https://'' @ strip raw else strip raw)
           in if scheme q \<noteq> ''http'' \<and> scheme q \<noteq> ''https'' then Inl UnsupportedScheme
              else if netloc q = [] then Inl InvalidHost
              else if length u > 2048 then Inl URLTooLong
              else Inr u)"
    by (auto simp: normalize_url_def check_url_def MAX_URL_LEN_def Let_def split: if_splits)
next
  assume "strip raw \<noteq> []"
  then show "normalize_url urlparse raw = normalize_url_spec urlparse raw
        \<or> (\<exists>q u. (u = strip raw \<or> u = ''https://'' @ strip raw) \<and> urlparse u = Inr q
              \<and> scheme q \<in> {''http'', ''https''} \<and> netloc q \<noteq> [] \<and> hostname (netloc q) = []
              \<and> normalize_url_spec urlparse raw = Inl InvalidHost
              \<and> normalize_url urlparse raw = (if length u > 2048 then Inl URLTooLong else Inr u))"
    by (rule normalize_url_vs_spec)
qed

text \<open>
  Claim C4 as stated fails twice. On the empty string the specification's steps reject
  with \<open>InvalidHost\<close> (there is no host) and the code returns it. On \<open>http://:80/x\<close> the
  authority \<open>:80\<close> holds a port and no host: the specification rejects, the code returns
  the URL.
\<close>

theorem normalize_url_cases_counterexample:
  "normalize_url (py_urlparse (\<lambda>_. True)) '''' = Inr ''''
   \<and> normalize_url_spec (py_urlparse (\<lambda>_. True)) '''' = Inl InvalidHost
   \<and> py_urlparse (\<lambda>_. True) ''http://:80/x'' = Inr \<lparr>scheme = ''http'', netloc = '':80''\<rparr>
   \<and> hostname '':80'' = []
   \<and> normalize_url (py_urlparse (\<lambda>_. True)) ''http://:80/x'' = Inr ''http://:80/x''
   \<and> normalize_url_spec (py_urlparse (\<lambda>_. True)) ''http://:80/x'' = Inl InvalidHost"
  by (simp add: py_defs normalize_url_spec_def hostname_def)

lemma normalize_url_nonblank_checked:
  assumes "strip raw \<noteq> []" and "normalize_url urlparse raw = Inr v"
  shows "v \<noteq> [] \<and> length v \<le> MAX_URL_LEN
         \<and> (\<exists>p. urlparse v = Inr p \<and> scheme p \<in> {''http'', ''https''} \<and> netloc p \<noteq> [])"
proof -
  from assms obtain p where p: "urlparse (strip raw) = Inr p"
    by (cases "urlparse (strip raw)") (auto simp: normalize_url_def)
  show ?thesis
  proof (cases "scheme p = []")
    case True
    let ?u' = "''https://'' @ strip raw"
    from assms p True obtain q where q: "urlparse ?u' = Inr q" and c: "check_url q ?u' = Inr v"
      by (cases "urlparse ?u'") (auto simp: normalize_url_def)
    from check_url_Inr [OF c] q show ?thesis by auto
  next
    case False
    with assms p have c: "check_url p (strip raw) = Inr v" by (simp add: normalize_url_def)
    from check_url_Inr [OF c] p assms(1) show ?thesis by auto
  qed
qed

section \<open>Properties of the rate limiter\<close>

lemma rate_limited_fst:
  "fst (rate_limited now key rb) =
   (\<not> length (filter (\<lambda>t. now - timedelta_seconds RATE_LIMIT_WINDOW < t) (bucket_get rb key)) < RATE_LIMIT_BURST)"
  by (simp add: rate_limited_def Let_def)

lemma rate_limited_bucket:
  "bucket_get (snd (rate_limited now key rb)) key =
   (let pruned = filter (\<lambda>t. now - timedelta_seconds RATE_LIMIT_WINDOW < t) (bucket_get rb key)
    in if length pruned < RATE_LIMIT_BURST then pruned @ [now] else pruned)"
  by (simp add: rate_limited_def Let_def bucket_get_def)

lemma rate_limited_other: "k \<noteq> key \<Longrightarrow> snd (rate_limited now key rb) k = rb k"
  by (simp add: rate_limited_def Let_def)

lemma rate_limited_seq_Cons:
  "rate_limited_seq key (t # ts) rb =
   (fst (rate_limited t key rb) # fst (rate_limited_seq key ts (snd (rate_limited t key rb))),
    snd (rate_limited_seq key ts (snd (rate_limited t key rb))))"
  by (simp add: case_prod_unfold Let_def)

lemma filter_window_mono:
  assumes "s \<le> (now :: int)"
  shows "filter (\<lambda>x. now - w < x) (filter (\<lambda>x. s - w < x) b) = filter (\<lambda>x. now - w < x) b"
proof -
  have "(\<lambda>x. s - w < x \<and> now - w < x) = (\<lambda>x. now - w < x)" using assms by auto
  then show ?thesis by (simp add: conj_commute)
qed

lemma count_step:
  assumes "s \<le> now" "now - timedelta_seconds RATE_LIMIT_WINDOW < s"
  shows "length (filter (\<lambda>x. now - timedelta_seconds RATE_LIMIT_WINDOW < x)
                 (bucket_get (snd (rate_limited s key rb)) key)) =
         length (filter (\<lambda>x. now - timedelta_seconds RATE_LIMIT_WINDOW < x) (bucket_get rb key))
         + (if fst (rate_limited s key rb) then 0 else 1)"
  using assms filter_window_mono [OF assms(1), of "timedelta_seconds RATE_LIMIT_WINDOW" "bucket_get rb key"]
  by (simp add: rate_limited_bucket rate_limited_fst Let_def)

lemma count_seq:
  assumes "\<forall>s\<in>set ts. now - timedelta_seconds RATE_LIMIT_WINDOW < s \<and> s \<le> now"
  shows "length (filter (\<lambda>x. now - timedelta_seconds RATE_LIMIT_WINDOW < x)
                 (bucket_get (snd (rate_limited_seq key ts rb)) key)) =
         length (filter (\<lambda>x. now - timedelta_seconds RATE_LIMIT_WINDOW < x) (bucket_get rb key))
         + length (filter Not (fst (rate_limited_seq key ts rb)))"
  using assms
proof (induction ts arbitrary: rb)
  case Nil
  then show ?case by simp
next
  case (Cons s ts)
  have "s \<le> now" "now - timedelta_seconds RATE_LIMIT_WINDOW < s" using Cons.prems by simp_all
  note st = count_step [OF this, of key rb]
  have "\<forall>s\<in>set ts. now - timedelta_seconds RATE_LIMIT_WINDOW < s \<and> s \<le> now"
    using Cons.prems by simp
  note ih = Cons.IH [OF this, of "snd (rate_limited s key rb)"]
  show ?case unfolding rate_limited_seq_Cons using ih st by simp
qed

lemma members_seq:
  "set (bucket_get (snd (rate_limited_seq key ts rb)) key) \<subseteq> set (bucket_get rb key) \<union> set ts"
proof (induction ts arbitrary: rb)
  case Nil
  then show ?case by simp
next
  case (Cons s ts)
  have "set (bucket_get (snd (rate_limited s key rb)) key) \<subseteq> set (bucket_get rb key) \<union> {s}"
    by (auto simp: rate_limited_bucket Let_def)
  with Cons.IH [of "snd (rate_limited s key rb)"] show ?case
    unfolding rate_limited_seq_Cons by auto
qed

lemma denied_after_burst:
  assumes "length ts = RATE_LIMIT_BURST"
    and "\<forall>s\<in>set ts. now - timedelta_seconds RATE_LIMIT_WINDOW < s \<and> s \<le> now"
    and "fst (rate_limited_seq key ts rb) = replicate RATE_LIMIT_BURST False"
  shows "fst (rate_limited now key (snd (rate_limited_seq key ts rb)))"
proof -
  have "length (filter Not (fst (rate_limited_seq key ts rb))) = RATE_LIMIT_BURST"
    using assms(3) by simp
  with count_seq [OF assms(2), of key rb] show ?thesis
    by (simp add: rate_limited_fst)
qed

lemma admitted_after_window:
  assumes "\<forall>s\<in>set (bucket_get rb key) \<union> set ts. s + timedelta_seconds RATE_LIMIT_WINDOW \<le> now"
  shows "\<not> fst (rate_limited now key (snd (rate_limited_seq key ts rb)))"
proof -
  have "\<forall>s\<in>set (bucket_get (snd (rate_limited_seq key ts rb)) key). \<not> now - timedelta_seconds RATE_LIMIT_WINDOW < s"
  proof
    fix s assume "s \<in> set (bucket_get (snd (rate_limited_seq key ts rb)) key)"
    with members_seq [of key ts rb] have "s \<in> set (bucket_get rb key) \<union> set ts" by blast
    with assms have "s + timedelta_seconds RATE_LIMIT_WINDOW \<le> now" by blast
    then show "\<not> now - timedelta_seconds RATE_LIMIT_WINDOW < s" by linarith
  qed
  then have "filter (\<lambda>t. now - timedelta_seconds RATE_LIMIT_WINDOW < t)
               (bucket_get (snd (rate_limited_seq key ts rb)) key) = []"
    by (simp add: filter_empty_conv)
  then show ?thesis by (simp add: rate_limited_fst RATE_LIMIT_BURST_def)
qed

text \<open>
  Claim C5. One admission check prunes the instants that are not inside the trailing
  window of 60 seconds, admits exactly when fewer than 10 instants remain, records the
  current instant only on admission, and leaves every other key alone. Ten admitted checks
  inside the window that ends at \<open>now\<close> are followed by a denial at \<open>now\<close>; once every
  recorded instant is at least 60 seconds old, the check admits again.
\<close>

theorem rate_limited_sliding_window:
  "(let pruned = filter (\<lambda>t. now - timedelta_seconds 60 < t) (bucket_get rb key);
        admitted = (length pruned < 10)
    in fst (rate_limited now key rb) = (\<not> admitted)
       \<and> bucket_get (snd (rate_limited now key rb)) key = (if admitted then pruned @ [now] else pruned)
       \<and> (\<forall>k. k \<noteq> key \<longrightarrow> snd (rate_limited now key rb) k = rb k))
   \<and> (length ts = 10 \<and> (\<forall>s\<in>set ts. now - timedelta_seconds 60 < s \<and> s \<le> now)
        \<and> fst (rate_limited_seq key ts rb) = replicate 10 False
      \<longrightarrow> fst (rate_limited now key (snd (rate_limited_seq key ts rb))))
   \<and> ((\<forall>s\<in>set (bucket_get rb key) \<union> set ts. s + timedelta_seconds 60 \<le> now)
      \<longrightarrow> \<not> fst (rate_limited now key (snd (rate_limited_seq key ts rb))))"
proof (intro conjI)
  show "let pruned = filter (\<lambda>t. now - timedelta_seconds 60 < t) (bucket_get rb key);
            admitted = (length pruned < 10)
        in fst (rate_limited now key rb) = (\<not> admitted)
           \<and> bucket_get (snd (rate_limited now key rb)) key = (if admitted then pruned @ [now] else pruned)
           \<and> (\<forall>k. k \<noteq> key \<longrightarrow> snd (rate_limited now key rb) k = rb k)"
    using rate_limited_fst [of now key rb] rate_limited_bucket [of now key rb] rate_limited_other [of _ key now rb]
    by (simp add: Let_def RATE_LIMIT_BURST_def RATE_LIMIT_WINDOW_def)
  show "length ts = 10 \<and> (\<forall>s\<in>set ts. now - timedelta_seconds 60 < s \<and> s \<le> now)
        \<and> fst (rate_limited_seq key ts rb) = replicate 10 False
      \<longrightarrow> fst (rate_limited now key (snd (rate_limited_seq key ts rb)))"
    using denied_after_burst [of ts now key rb]
    by (simp add: RATE_LIMIT_BURST_def RATE_LIMIT_WINDOW_def)
  show "(\<forall>s\<in>set (bucket_get rb key) \<union> set ts. s + timedelta_seconds 60 \<le> now)
      \<longrightarrow> \<not> fst (rate_limited now key (snd (rate_limited_seq key ts rb)))"
    using admitted_after_window [of rb key ts now]
    by (simp add: RATE_LIMIT_WINDOW_def)
qed

lemma admitted_below_burst:
  assumes "length (bucket_get rb key) + length ts \<le> RATE_LIMIT_BURST"
  shows "fst (rate_limited_seq key ts rb) = replicate (length ts) False"
  using assms
proof (induction ts arbitrary: rb)
  case Nil
  then show ?case by simp
next
  case (Cons s ts)
  let ?pruned = "filter (\<lambda>t. s - timedelta_seconds RATE_LIMIT_WINDOW < t) (bucket_get rb key)"
  have le: "length ?pruned \<le> length (bucket_get rb key)" by (rule length_filter_le)
  have lt: "length ?pruned < RATE_LIMIT_BURST" using le Cons.prems by (simp only: list.size)
  from lt have adm: "\<not> fst (rate_limited s key rb)"
    by (simp add: rate_limited_fst)
  have "bucket_get (snd (rate_limited s key rb)) key = ?pruned @ [s]"
    using lt by (simp add: rate_limited_bucket Let_def)
  then have "length (bucket_get (snd (rate_limited s key rb)) key) = Suc (length ?pruned)"
    by simp
  with le have "length (bucket_get (snd (rate_limited s key rb)) key) \<le> Suc (length (bucket_get rb key))"
    by linarith
  with Cons.prems have "length (bucket_get (snd (rate_limited s key rb)) key) + length ts \<le> RATE_LIMIT_BURST"
    by simp
  from Cons.IH [OF this] adm show ?case unfolding rate_limited_seq_Cons by simp
qed

theorem rate_limited_sliding_window_witness:
  "list_all (\<lambda>s. 10 - timedelta_seconds 60 < s \<and> s \<le> 10) [0, 1, 2, 3, 4, 5, 6, 7, 8, 9 :: int]
   \<and> fst (rate_limited_seq ''create:127.0.0.1'' [0, 1, 2, 3, 4, 5, 6, 7, 8, 9] Map.empty) = replicate 10 False
   \<and> fst (rate_limited 10 ''create:127.0.0.1''
            (snd (rate_limited_seq ''create:127.0.0.1'' [0, 1, 2, 3, 4, 5, 6, 7, 8, 9] Map.empty)))
   \<and> list_all (\<lambda>s. s + timedelta_seconds 60 \<le> 60000009) [0, 1, 2, 3, 4, 5, 6, 7, 8, 9 :: int]
   \<and> \<not> fst (rate_limited 60000009 ''create:127.0.0.1''
            (snd (rate_limited_seq ''create:127.0.0.1'' [0, 1, 2, 3, 4, 5, 6, 7, 8, 9] Map.empty)))"
proof -
  let ?ts = "[0, 1, 2, 3, 4, 5, 6, 7, 8, 9 :: int]"
  let ?k = "''create:127.0.0.1''"
  have l: "length ?ts = 10" by simp
  have w': "list_all (\<lambda>s. 10 - timedelta_seconds 60 < s \<and> s \<le> 10) ?ts"
    by (simp add: timedelta_seconds_def)
  then have w: "\<forall>s\<in>set ?ts. 10 - timedelta_seconds 60 < s \<and> s \<le> 10"
    by (simp only: list_all_iff)
  have p: "length (bucket_get Map.empty ?k) + length ?ts \<le> RATE_LIMIT_BURST"
    by (simp add: bucket_get_def RATE_LIMIT_BURST_def)
  have a: "fst (rate_limited_seq ?k ?ts Map.empty) = replicate 10 False"
    using admitted_below_burst [OF p] by (simp only: l)
  have e': "list_all (\<lambda>s. s + timedelta_seconds 60 \<le> 60000009) ?ts"
    by (simp add: timedelta_seconds_def)
  then have "\<forall>s\<in>set ?ts. s + timedelta_seconds 60 \<le> 60000009"
    by (simp only: list_all_iff)
  moreover have "bucket_get Map.empty ?k = []" by (simp add: bucket_get_def)
  ultimately have e: "\<forall>s\<in>set (bucket_get Map.empty ?k) \<union> set ?ts. s + timedelta_seconds 60 \<le> 60000009"
    by (simp only: list.set Un_empty_left)
  from l w a rate_limited_sliding_window [of 10 Map.empty ?k ?ts]
  have d: "fst (rate_limited 10 ?k (snd (rate_limited_seq ?k ?ts Map.empty)))" by blast
  from e rate_limited_sliding_window [of 60000009 Map.empty ?k ?ts]
  have r: "\<not> fst (rate_limited 60000009 ?k (snd (rate_limited_seq ?k ?ts Map.empty)))" by blast
  from w' a d e' r show ?thesis by blast
qed

section \<open>Properties of the table and the redirect\<close>

lemma select_by_code_None: "select_by_code db c = None \<longleftrightarrow> c \<notin> set (map code db)"
  by (auto simp: select_by_code_def find_None_iff)

lemma update_clicks_codes: "map code (update_clicks t c db) = map code db"
  by (induction db) (simp_all add: update_clicks_def)

lemma select_update_same:
  "select_by_code db c = Some r \<Longrightarrow>
   select_by_code (update_clicks t c db) c =
     Some (r\<lparr>clicks := sql_plus_one (clicks r), last_accessed := Some (datetime_now t)\<rparr>)"
  by (induction db) (auto simp: select_by_code_def update_clicks_def)

lemma select_update_other:
  "c' \<noteq> c \<Longrightarrow> select_by_code (update_clicks t c db) c' = select_by_code db c'"
  by (induction db) (auto simp: select_by_code_def update_clicks_def)

lemma sql_plus_many:
  "n + int k \<le> 9223372036854775807 \<Longrightarrow>
   (sql_plus_one ^^ k) (SqlInteger n) = SqlInteger (n + int k)"
  by (induction k) (simp_all add: sql_plus_one_def)

lemma flask_redirect_ok:
  "CHR 0x0D \<notin> set u \<Longrightarrow> CHR 0x0A \<notin> set u \<Longrightarrow> flask_redirect u = Redirect u"
  by (simp add: flask_redirect_def)

lemma go_found:
  "select_by_code db c = Some r \<Longrightarrow>
   go redirect update_raises t c db =
     (if update_raises then (Uncaught, db) else (redirect (long_url r), update_clicks t c db))"
  by (simp add: go_def)

lemma go_codes: "map code (snd (go redirect f t c db)) = map code db"
  by (simp add: go_def update_clicks_codes split: option.splits)

lemma go_seq_Cons:
  "go_seq redirect (t # ts) c db =
   (fst (go redirect False t c db) # fst (go_seq redirect ts c (snd (go redirect False t c db))),
    snd (go_seq redirect ts c (snd (go redirect False t c db))))"
  by (simp add: case_prod_unfold Let_def)

lemma go_seq_found:
  "select_by_code db c = Some r \<Longrightarrow>
   fst (go_seq redirect ts c db) = replicate (length ts) (redirect (long_url r))
   \<and> select_by_code (snd (go_seq redirect ts c db)) c =
       Some (r\<lparr>clicks := (sql_plus_one ^^ length ts) (clicks r),
               last_accessed := (if ts = [] then last_accessed r
                                 else Some (datetime_now (last ts)))\<rparr>)"
proof (induction ts arbitrary: db r)
  case Nil
  then show ?case by simp
next
  case (Cons t ts)
  let ?r1 = "r\<lparr>clicks := sql_plus_one (clicks r), last_accessed := Some (datetime_now t)\<rparr>"
  have g: "go redirect False t c db = (redirect (long_url r), update_clicks t c db)"
    using Cons.prems by (simp add: go_found)
  have s1: "select_by_code (update_clicks t c db) c = Some ?r1"
    using Cons.prems by (rule select_update_same)
  from Cons.IH [OF s1] show ?case
    unfolding go_seq_Cons g by (simp add: funpow_swap1)
qed

lemma go_seq_other:
  "c' \<noteq> c \<Longrightarrow> select_by_code (snd (go_seq redirect ts c db)) c' = select_by_code db c'"
proof (induction ts arbitrary: db)
  case Nil
  then show ?case by simp
next
  case (Cons t ts)
  have "select_by_code (snd (go redirect False t c db)) c' = select_by_code db c'"
    using Cons.prems by (simp add: go_def select_update_other split: option.splits)
  with Cons.IH [OF Cons.prems, of "snd (go redirect False t c db)"] show ?case
    unfolding go_seq_Cons by simp
qed

text \<open>
  Claim C6, amended. Take a stored code whose \<open>long_url\<close> the framework's redirect accepts
  (it accepts every URL without CR and LF) and whose \<open>clicks\<close> is an integer that \<open>N\<close>
  further redirects keep within the 64-bit range. Redirecting it \<open>N\<close> times in a row
  returns the stored \<open>long_url\<close> every time and leaves the row with \<open>clicks\<close> raised by
  exactly \<open>N\<close> and \<open>last_accessed\<close> set by the last redirect; the rows of other codes are as
  before. A code that is not stored gives \<open>NotFound\<close> and changes nothing.
\<close>

theorem resolve_n_times:
  "(select_by_code db c = Some r \<and> redirect (long_url r) = Redirect (long_url r)
      \<and> clicks r = SqlInteger n \<and> n + int (length ts) \<le> 9223372036854775807 \<longrightarrow>
      fst (go_seq redirect ts c db) = replicate (length ts) (Redirect (long_url r))
      \<and> select_by_code (snd (go_seq redirect ts c db)) c =
          Some (r\<lparr>clicks := SqlInteger (n + int (length ts)),
                  last_accessed := (if ts = [] then last_accessed r
                                    else Some (datetime_now (last ts)))\<rparr>)
      \<and> (\<forall>c'. c' \<noteq> c \<longrightarrow>
            select_by_code (snd (go_seq redirect ts c db)) c' = select_by_code db c'))
   \<and> (CHR 0x0D \<notin> set u \<and> CHR 0x0A \<notin> set u \<longrightarrow> flask_redirect u = Redirect u)
   \<and> (select_by_code db c = None \<longrightarrow> go redirect False t c db = (NotFound, db))"
proof (intro conjI impI)
  assume a: "select_by_code db c = Some r \<and> redirect (long_url r) = Redirect (long_url r)
      \<and> clicks r = SqlInteger n \<and> n + int (length ts) \<le> 9223372036854775807"
  then have s: "select_by_code db c = Some r" by blast
  from a have m: "(sql_plus_one ^^ length ts) (clicks r) = SqlInteger (n + int (length ts))"
    by (simp add: sql_plus_many)
  from go_seq_found [OF s, of redirect ts] a
  show "fst (go_seq redirect ts c db) = replicate (length ts) (Redirect (long_url r))"
    by simp
  from go_seq_found [OF s, of redirect ts] m
  show "select_by_code (snd (go_seq redirect ts c db)) c =
          Some (r\<lparr>clicks := SqlInteger (n + int (length ts)),
                  last_accessed := (if ts = [] then last_accessed r
                                    else Some (datetime_now (last ts)))\<rparr>)"
    by simp
  show "\<forall>c'. c' \<noteq> c \<longrightarrow>
            select_by_code (snd (go_seq redirect ts c db)) c' = select_by_code db c'"
    by (simp add: go_seq_other)
next
  assume "CHR 0x0D \<notin> set u \<and> CHR 0x0A \<notin> set u"
  then show "flask_redirect u = Redirect u" by (simp add: flask_redirect_def)
next
  assume "select_by_code db c = None"
  then show "go redirect False t c db = (NotFound, db)" by (simp add: go_def)
qed

text \<open>
  Claim C2, amended. For a stored code, when the update of the counter succeeds \<open>go\<close>
  answers with the framework's redirect to the stored \<open>long_url\<close>, which is the redirect
  response for every URL without CR and LF; when the update raises, the exception leaves
  the handler, no URL is returned and the table is as before.
\<close>

theorem go_increment_failure:
  "select_by_code db c = Some r \<Longrightarrow>
   go redirect False t c db = (redirect (long_url r), update_clicks t c db)
   \<and> go redirect True t c db = (Uncaught, db)
   \<and> (CHR 0x0D \<notin> set (long_url r) \<and> CHR 0x0A \<notin> set (long_url r) \<longrightarrow>
        go flask_redirect False t c db = (Redirect (long_url r), update_clicks t c db))"
  by (simp add: go_found flask_redirect_def)

text \<open>
  Claim C2 as stated fails: with a stored code and a failing update, the result is the
  uncaught exception and not the redirect.
\<close>

theorem go_increment_failure_counterexample:
  "select_by_code [\<lparr>code = ''abc'', long_url = ''https://example.com/x'', created_at = 0,
                     clicks = SqlInteger 0, last_accessed = None\<rparr>] ''abc''
     = Some \<lparr>code = ''abc'', long_url = ''https://example.com/x'', created_at = 0,
              clicks = SqlInteger 0, last_accessed = None\<rparr>
   \<and> fst (go flask_redirect True 1000000 ''abc''
            [\<lparr>code = ''abc'', long_url = ''https://example.com/x'', created_at = 0,
              clicks = SqlInteger 0, last_accessed = None\<rparr>]) = Uncaught"
  by (simp add: go_def select_by_code_def)


lemma create_unfold:
  "create P rq st =
     (let rl = rate_limited (req_time rq) (''create:'' @ remote_addr rq) (rate_bucket st);
          st1 = st\<lparr>rate_bucket := snd rl\<rparr>;
          cc = strip (form_get (form_custom_code rq))
      in if fst rl then (Inl TooManyRequests, st1)
         else case normalize_url P (form_get (form_long_url rq)) of
                Inl e \<Rightarrow> (Inl e, st1)
              | Inr u \<Rightarrow>
                  if cc \<noteq> [] \<and> \<not> CUSTOM_CODE_REGEX_match cc then (Inl InvalidCodeFormat, st1)
                  else case insert_url (req_time rq)
                              (if cc \<noteq> [] then cc else retry_loop (req_random rq) (urls st) 0 10 [])
                              u (urls st) of
                         None \<Rightarrow> (Inl CodeTaken, st1)
                       | Some db \<Rightarrow>
                           (Inr (if cc \<noteq> [] then cc else retry_loop (req_random rq) (urls st) 0 10 [], u),
                            st1\<lparr>urls := db\<rparr>))"
  by (simp add: create_def case_prod_unfold Let_def split: sum.splits)

lemma create_urls_cases:
  "urls (snd (create P rq st)) = urls st
   \<or> (\<exists>c u. insert_url (req_time rq) c u (urls st) = Some (urls (snd (create P rq st))))"
  by (auto simp: create_unfold Let_def split: sum.splits option.splits)

lemma create_error_urls: "fst (create P rq st) = Inl e \<Longrightarrow> urls (snd (create P rq st)) = urls st"
  by (auto simp: create_unfold Let_def split: sum.splits option.splits if_splits)

lemma insert_url_distinct:
  "distinct (map code db) \<Longrightarrow> insert_url t c u db = Some db' \<Longrightarrow> distinct (map code db')"
  by (auto simp: insert_url_def split: if_splits)

lemma step_distinct:
  assumes "distinct (map code (urls st))"
  shows "distinct (map code (urls (step P R st op)))"
proof (cases op)
  case (Shorten rq)
  from create_urls_cases [of P rq st] assms show ?thesis
    unfolding Shorten by (auto dest: insert_url_distinct)
next
  case (Resolve f t c)
  with assms show ?thesis by (simp add: go_codes)
qed

lemma run_distinct:
  "distinct (map code (urls st)) \<Longrightarrow> distinct (map code (urls (run P R ops st)))"
  unfolding run_def
  by (induction ops arbitrary: st) (simp_all add: step_distinct)

text \<open>
  Claim C8. Inserting a code that is already stored fails, and a shorten request that ends
  in \<open>CodeTaken\<close> leaves the table unchanged; hence after any sequence of shorten and resolve
  requests, from the empty table or from any table with distinct codes, no two rows share
  a code.
\<close>

theorem codes_stay_unique:
  "(c \<in> set (map code db) \<longrightarrow> insert_url t c u db = None)
   \<and> (fst (create P rq st) = Inl CodeTaken \<longrightarrow> urls (snd (create P rq st)) = urls st)
   \<and> (distinct (map code (urls st)) \<longrightarrow> distinct (map code (urls (run P R ops st))))
   \<and> distinct (map code (urls (run P R ops init_state)))"
proof (intro conjI)
  show "c \<in> set (map code db) \<longrightarrow> insert_url t c u db = None"
    by (simp add: insert_url_def)
  show "fst (create P rq st) = Inl CodeTaken \<longrightarrow> urls (snd (create P rq st)) = urls st"
    using create_error_urls by blast
  show "distinct (map code (urls st)) \<longrightarrow> distinct (map code (urls (run P R ops st)))"
    using run_distinct by blast
  show "distinct (map code (urls (run P R ops init_state)))"
    by (rule run_distinct) (simp add: init_state_def)
qed

section \<open>Properties of the shortening handler\<close>

lemma retry_loop_taken_cases:
  "0 < n \<Longrightarrow> \<exists>i<n. retry_loop rand db k n c = random_code rand (k + i * CODE_LEN) CODE_LEN"
proof (induction n arbitrary: k c)
  case 0
  then show ?case by simp
next
  case (Suc n)
  show ?case
  proof (cases "select_by_code db (random_code rand k CODE_LEN) = None \<or> n = 0")
    case True
    then have "retry_loop rand db k (Suc n) c = random_code rand (k + 0 * CODE_LEN) CODE_LEN"
      by (auto simp: Let_def)
    moreover have "0 < Suc n" by simp
    ultimately show ?thesis by blast
  next
    case False
    then have n: "0 < n" by simp
    from Suc.IH [OF n, of "k + CODE_LEN" "random_code rand k CODE_LEN"]
    obtain i where i: "i < n"
      and r: "retry_loop rand db (k + CODE_LEN) n (random_code rand k CODE_LEN)
              = random_code rand (k + CODE_LEN + i * CODE_LEN) CODE_LEN"
      by blast
    from False obtain y where "select_by_code db (random_code rand k CODE_LEN) = Some y"
      by auto
    with r have "retry_loop rand db k (Suc n) c = random_code rand (k + Suc i * CODE_LEN) CODE_LEN"
      by (simp add: Let_def add.assoc)
    moreover from i have "Suc i < Suc n" by simp
    ultimately show ?thesis by blast
  qed
qed

text \<open>
  Claim C1, amended. When a request without custom code is admitted, its URL normalises,
  and all ten generated codes are already stored, \<open>create\<close> answers with \<open>CodeTaken\<close>, the
  very error of a custom-code collision, and the table is unchanged.
\<close>

theorem create_all_attempts_collide:
  assumes "\<not> fst (rate_limited (req_time rq) (''create:'' @ remote_addr rq) (rate_bucket st))"
    and "normalize_url P (form_get (form_long_url rq)) = Inr u"
    and "strip (form_get (form_custom_code rq)) = []"
    and "\<forall>i<10. select_by_code (urls st) (random_code (req_random rq) (i * CODE_LEN) CODE_LEN) \<noteq> None"
  shows "fst (create P rq st) = Inl CodeTaken \<and> urls (snd (create P rq st)) = urls st"
proof -
  have "(0::nat) < 10" by simp
  from retry_loop_taken_cases [OF this, of "req_random rq" "urls st" 0 "[]"]
  obtain i where i: "i < 10"
    and r: "retry_loop (req_random rq) (urls st) 0 10 [] = random_code (req_random rq) (0 + i * CODE_LEN) CODE_LEN"
    by blast
  from assms(4) i have "select_by_code (urls st) (random_code (req_random rq) (i * CODE_LEN) CODE_LEN) \<noteq> None"
    by blast
  with r have "select_by_code (urls st) (retry_loop (req_random rq) (urls st) 0 10 []) \<noteq> None"
    by simp
  then have "insert_url (req_time rq) (retry_loop (req_random rq) (urls st) 0 10 []) u (urls st) = None"
    by (simp add: select_by_code_None insert_url_def)
  with assms(1-3) show ?thesis by (simp add: create_unfold)
qed

lemma choice_zero: "choice 0 CODE_CHARS = CHR ''a''"
  by (simp add: choice_def CODE_CHARS_def ascii_letters_def ascii_lowercase_def)

lemma six_a: "map (\<lambda>j::nat. CHR ''a'') [0..<6] = ''aaaaaa''"
  by code_simp

lemma random_code_zero: "random_code (\<lambda>_. 0) k CODE_LEN = ''aaaaaa''"
  by (simp only: random_code_def choice_zero CODE_LEN_def six_a)

lemma retry_loop_zero: "retry_loop (\<lambda>_. 0) db 0 10 [] = ''aaaaaa''"
proof -
  have "(0::nat) < 10" by simp
  from retry_loop_taken_cases [OF this, of "\<lambda>_. 0" db 0 "[]"]
  obtain i where "retry_loop (\<lambda>_. 0) db 0 10 [] = random_code (\<lambda>_. 0) (0 + i * CODE_LEN) CODE_LEN"
    by blast
  then show ?thesis by (simp only: random_code_zero)
qed

lemma admitted_empty: "bucket_get rb key = [] \<Longrightarrow> \<not> fst (rate_limited now key rb)"
  by (simp add: rate_limited_fst RATE_LIMIT_BURST_def)

lemma create_rate_bucket:
  "rate_bucket (snd (create P rq st)) =
   snd (rate_limited (req_time rq) (''create:'' @ remote_addr rq) (rate_bucket st))"
  by (simp add: create_unfold Let_def split: sum.splits option.splits)

lemma create_limited:
  "fst (rate_limited (req_time rq) (''create:'' @ remote_addr rq) (rate_bucket st)) \<Longrightarrow>
   create P rq st =
     (Inl TooManyRequests,
      st\<lparr>rate_bucket := snd (rate_limited (req_time rq) (''create:'' @ remote_addr rq) (rate_bucket st))\<rparr>)"
  by (simp add: create_unfold Let_def)

lemma create_invalid_url:
  assumes "\<not> fst (rate_limited (req_time rq) (''create:'' @ remote_addr rq) (rate_bucket st))"
    and "normalize_url P (form_get (form_long_url rq)) = Inl e"
  shows "fst (create P rq st) = Inl e"
  using assms by (simp add: create_unfold Let_def)

lemma create_insert:
  assumes "\<not> fst (rate_limited (req_time rq) (''create:'' @ remote_addr rq) (rate_bucket st))"
    and "normalize_url P (form_get (form_long_url rq)) = Inr u"
    and "strip (form_get (form_custom_code rq)) = cc"
    and "cc \<noteq> [] \<longrightarrow> CUSTOM_CODE_REGEX_match cc"
    and "c = (if cc \<noteq> [] then cc else retry_loop (req_random rq) (urls st) 0 10 [])"
  shows "fst (create P rq st) =
           (if c \<in> set (map code (urls st)) then Inl CodeTaken else Inr (c, u))"
    and "urls (snd (create P rq st)) =
           (if c \<in> set (map code (urls st)) then urls st
            else urls st @ [\<lparr>code = c, long_url = u, created_at = datetime_now (req_time rq),
                              clicks = SqlInteger 0, last_accessed = None\<rparr>])"
  using assms by (auto simp: create_unfold Let_def insert_url_def)

lemma create_bad_code:
  assumes "\<not> fst (rate_limited (req_time rq) (''create:'' @ remote_addr rq) (rate_bucket st))"
    and "normalize_url P (form_get (form_long_url rq)) = Inr u"
    and "strip (form_get (form_custom_code rq)) = cc"
    and "cc \<noteq> []" and "\<not> CUSTOM_CODE_REGEX_match cc"
  shows "fst (create P rq st) = Inl InvalidCodeFormat"
    and "urls (snd (create P rq st)) = urls st"
  using assms by (auto simp: create_unfold Let_def)

lemma regex_strip: "CUSTOM_CODE_REGEX_match (strip s) = code_body (strip s)"
proof (cases "strip s = []")
  case True
  then show ?thesis by (simp add: CUSTOM_CODE_REGEX_match_def)
next
  case False
  from strip_ends(2) [OF False] have "last (strip s) \<noteq> CHR 0x0A"
    by (auto simp: isspace_def)
  then show ?thesis by (simp add: CUSTOM_CODE_REGEX_match_def)
qed

lemma admitted_init: "\<not> fst (rate_limited t key Map.empty)"
  by (rule admitted_empty) (simp add: bucket_get_def)

lemma normalize_example: "normalize_url (py_urlparse (\<lambda>_. True)) ''example.com/x'' = Inr ''https://example.com/x''"
  by (simp add: py_defs)

lemma normalize_blank: "strip raw = [] \<Longrightarrow> normalize_url P raw = Inr []"
  by (simp add: normalize_url_def)

lemma strip_spaces: "strip ''   '' = []"
  by (simp add: strip_def isspace_def)

lemma spec_example:
  "normalize_url_spec (py_urlparse (\<lambda>_. True)) ''example.com/x'' = Inr ''https://example.com/x''"
  by (simp add: py_defs normalize_url_spec_def hostname_def)

lemma spec_hostless:
  "normalize_url_spec (py_urlparse (\<lambda>_. True)) ''http://:80/x'' = Inl InvalidHost"
  by (simp add: py_defs normalize_url_spec_def hostname_def)

theorem normalize_url_cases_witness:
  "strip ''   '' = []
   \<and> normalize_url (py_urlparse (\<lambda>_. True)) ''   '' = Inr []
   \<and> strip ''example.com/x'' \<noteq> []
   \<and> normalize_url_spec (py_urlparse (\<lambda>_. True)) ''example.com/x'' = Inr ''https://example.com/x''
   \<and> normalize_url (py_urlparse (\<lambda>_. True)) ''example.com/x'' = Inr ''https://example.com/x''
   \<and> strip ''http://:80/x'' \<noteq> []
   \<and> normalize_url_spec (py_urlparse (\<lambda>_. True)) ''http://:80/x'' = Inl InvalidHost
   \<and> normalize_url (py_urlparse (\<lambda>_. True)) ''http://:80/x'' = Inr ''http://:80/x''"
proof -
  let ?P = "py_urlparse (\<lambda>_. True)"
  from strip_spaces normalize_url_cases [of "''   ''" ?P]
  have b: "normalize_url ?P ''   '' = Inr []" by blast
  have n: "strip ''example.com/x'' \<noteq> []" by (simp add: strip_def isspace_def)
  from n normalize_url_cases [of "''example.com/x''" ?P]
  have "normalize_url ?P ''example.com/x'' = normalize_url_spec ?P ''example.com/x''
        \<or> normalize_url_spec ?P ''example.com/x'' = Inl InvalidHost" by blast
  with spec_example have e: "normalize_url ?P ''example.com/x'' = Inr ''https://example.com/x''"
    by simp
  have h: "strip ''http://:80/x'' \<noteq> []" by (simp add: strip_def isspace_def)
  have x: "normalize_url ?P ''http://:80/x'' = Inr ''http://:80/x''"
    by (simp add: py_defs)
  from strip_spaces b n spec_example e h spec_hostless x show ?thesis by blast
qed

theorem resolve_n_times_witness:
  "select_by_code [\<lparr>code = ''abc'', long_url = ''https://example.com/x'',
        created_at = 0, clicks = SqlInteger 0, last_accessed = None\<rparr>] ''abc'' = Some \<lparr>code = ''abc'', long_url = ''https://example.com/x'',
        created_at = 0, clicks = SqlInteger 0, last_accessed = None\<rparr>
   \<and> flask_redirect ''https://example.com/x'' = Redirect ''https://example.com/x''
   \<and> fst (go_seq flask_redirect [1000000, 2000000, 3000000] ''abc'' [\<lparr>code = ''abc'', long_url = ''https://example.com/x'',
        created_at = 0, clicks = SqlInteger 0, last_accessed = None\<rparr>])
       = [Redirect ''https://example.com/x'', Redirect ''https://example.com/x'',
          Redirect ''https://example.com/x'']
   \<and> select_by_code (snd (go_seq flask_redirect [1000000, 2000000, 3000000] ''abc'' [\<lparr>code = ''abc'', long_url = ''https://example.com/x'',
        created_at = 0, clicks = SqlInteger 0, last_accessed = None\<rparr>])) ''abc''
       = Some \<lparr>code = ''abc'', long_url = ''https://example.com/x'', created_at = 0,
               clicks = SqlInteger 3, last_accessed = Some 3\<rparr>
   \<and> select_by_code [\<lparr>code = ''abc'', long_url = ''https://example.com/x'',
        created_at = 0, clicks = SqlInteger 0, last_accessed = None\<rparr>] ''zzz'' = None
   \<and> go flask_redirect False 1000000 ''zzz'' [\<lparr>code = ''abc'', long_url = ''https://example.com/x'',
        created_at = 0, clicks = SqlInteger 0, last_accessed = None\<rparr>] = (NotFound, [\<lparr>code = ''abc'', long_url = ''https://example.com/x'',
        created_at = 0, clicks = SqlInteger 0, last_accessed = None\<rparr>])"
proof -
  let ?r = "\<lparr>code = ''abc'', long_url = ''https://example.com/x'',
        created_at = 0, clicks = SqlInteger 0, last_accessed = None\<rparr>"
  let ?ts = "[1000000, 2000000, 3000000 :: int]"
  have s: "select_by_code [?r] ''abc'' = Some ?r" by (simp add: select_by_code_def)
  have z: "select_by_code [?r] ''zzz'' = None" by (simp add: select_by_code_def)
  have nl: "CHR 0x0D \<notin> set ''https://example.com/x'' \<and> CHR 0x0A \<notin> set ''https://example.com/x''"
    by simp
  note th = resolve_n_times [of "[?r]" "''abc''" ?r flask_redirect 0 ?ts "''https://example.com/x''" 1000000]
  from th nl have f: "flask_redirect ''https://example.com/x'' = Redirect ''https://example.com/x''"
    by blast
  then have h: "select_by_code [?r] ''abc'' = Some ?r
      \<and> flask_redirect (long_url ?r) = Redirect (long_url ?r)
      \<and> clicks ?r = SqlInteger 0 \<and> 0 + int (length ?ts) \<le> 9223372036854775807"
    using s by simp
  from th h
  have "fst (go_seq flask_redirect ?ts ''abc'' [?r]) = replicate (length ?ts) (Redirect (long_url ?r))"
    and "select_by_code (snd (go_seq flask_redirect ?ts ''abc'' [?r])) ''abc'' =
          Some (?r\<lparr>clicks := SqlInteger (0 + int (length ?ts)),
                  last_accessed := (if ?ts = [] then last_accessed ?r
                                    else Some (datetime_now (last ?ts)))\<rparr>)"
    by blast+
  moreover from z resolve_n_times [of "[?r]" "''zzz''" _ flask_redirect _ _ _ 1000000]
  have "go flask_redirect False 1000000 ''zzz'' [?r] = (NotFound, [?r])" by blast
  ultimately show ?thesis using s z f by (simp add: datetime_now_def)
qed

theorem go_increment_failure_witness:
  "go flask_redirect False 1000000 ''abc'' [\<lparr>code = ''abc'', long_url = ''https://example.com/x'',
        created_at = 0, clicks = SqlInteger 0, last_accessed = None\<rparr>]
     = (Redirect ''https://example.com/x'',
        [\<lparr>code = ''abc'', long_url = ''https://example.com/x'', created_at = 0,
          clicks = SqlInteger 1, last_accessed = Some 1\<rparr>])
   \<and> go flask_redirect True 1000000 ''abc'' [\<lparr>code = ''abc'', long_url = ''https://example.com/x'',
        created_at = 0, clicks = SqlInteger 0, last_accessed = None\<rparr>] = (Uncaught, [\<lparr>code = ''abc'', long_url = ''https://example.com/x'',
        created_at = 0, clicks = SqlInteger 0, last_accessed = None\<rparr>])"
proof -
  have s: "select_by_code [\<lparr>code = ''abc'', long_url = ''https://example.com/x'',
        created_at = 0, clicks = SqlInteger 0, last_accessed = None\<rparr>] ''abc'' = Some \<lparr>code = ''abc'', long_url = ''https://example.com/x'',
        created_at = 0, clicks = SqlInteger 0, last_accessed = None\<rparr>"
    by (simp add: select_by_code_def)
  from go_increment_failure [OF s, of flask_redirect 1000000] show ?thesis
    by (simp add: update_clicks_def datetime_now_def sql_plus_one_def flask_redirect_def)
qed

lemma match_abc: "CUSTOM_CODE_REGEX_match ''abc''"
  by (simp add: CUSTOM_CODE_REGEX_match_def code_body_def code_class_def ascii_lowercase_def)

lemma match_aaaaaa: "CUSTOM_CODE_REGEX_match ''aaaaaa''"
  by (simp add: CUSTOM_CODE_REGEX_match_def code_body_def code_class_def ascii_lowercase_def)

lemma strip_abc: "strip '' abc '' = ''abc''"
  by (simp add: strip_def isspace_def)

lemma strip_aaaaaa: "strip ''aaaaaa'' = ''aaaaaa''"
  by (simp add: strip_def isspace_def)

lemma custom_taken_example:
  "fst (create (py_urlparse (\<lambda>_. True)) \<lparr>remote_addr = ''127.0.0.1'', form_long_url = Some ''example.com/x'',
        form_custom_code = Some '' abc '', req_time = 0, req_random = (\<lambda>_. 0)\<rparr> \<lparr>rate_bucket = Map.empty, urls = [\<lparr>code = ''abc'', long_url = ''https://example.com/x'',
        created_at = 0, clicks = SqlInteger 0, last_accessed = None\<rparr>]\<rparr>) = Inl CodeTaken"
  "urls (snd (create (py_urlparse (\<lambda>_. True)) \<lparr>remote_addr = ''127.0.0.1'', form_long_url = Some ''example.com/x'',
        form_custom_code = Some '' abc '', req_time = 0, req_random = (\<lambda>_. 0)\<rparr> \<lparr>rate_bucket = Map.empty, urls = [\<lparr>code = ''abc'', long_url = ''https://example.com/x'',
        created_at = 0, clicks = SqlInteger 0, last_accessed = None\<rparr>]\<rparr>)) = [\<lparr>code = ''abc'', long_url = ''https://example.com/x'',
        created_at = 0, clicks = SqlInteger 0, last_accessed = None\<rparr>]"
proof -
  let ?rq = "\<lparr>remote_addr = ''127.0.0.1'', form_long_url = Some ''example.com/x'',
        form_custom_code = Some '' abc '', req_time = 0, req_random = (\<lambda>_. 0)\<rparr>"
  let ?st = "\<lparr>rate_bucket = Map.empty, urls = [\<lparr>code = ''abc'', long_url = ''https://example.com/x'',
        created_at = 0, clicks = SqlInteger 0, last_accessed = None\<rparr>]\<rparr>"
  have a: "\<not> fst (rate_limited (req_time ?rq) (''create:'' @ remote_addr ?rq) (rate_bucket ?st))"
    by (simp add: admitted_init)
  have n: "normalize_url (py_urlparse (\<lambda>_. True)) (form_get (form_long_url ?rq)) = Inr ''https://example.com/x''"
    by (simp add: form_get_def normalize_example)
  have c: "strip (form_get (form_custom_code ?rq)) = ''abc''"
    by (simp add: form_get_def strip_abc)
  have m: "''abc'' \<noteq> [] \<longrightarrow> CUSTOM_CODE_REGEX_match ''abc''" by (simp add: match_abc)
  have r: "''abc'' = (if ''abc'' \<noteq> [] then ''abc'' else retry_loop (req_random ?rq) (urls ?st) 0 10 [])"
    by simp
  from create_insert(1) [OF a n c m r]
  show "fst (create (py_urlparse (\<lambda>_. True)) ?rq ?st) = Inl CodeTaken" by simp
  from create_insert(2) [OF a n c m r]
  show "urls (snd (create (py_urlparse (\<lambda>_. True)) ?rq ?st)) = [\<lparr>code = ''abc'', long_url = ''https://example.com/x'',
        created_at = 0, clicks = SqlInteger 0, last_accessed = None\<rparr>]" by simp
qed

theorem codes_stay_unique_witness:
  "''abc'' \<in> set (map code [\<lparr>code = ''abc'', long_url = ''https://example.com/x'',
        created_at = 0, clicks = SqlInteger 0, last_accessed = None\<rparr>])
   \<and> insert_url 0 ''abc'' ''https://example.org/'' [\<lparr>code = ''abc'', long_url = ''https://example.com/x'',
        created_at = 0, clicks = SqlInteger 0, last_accessed = None\<rparr>] = None
   \<and> fst (create (py_urlparse (\<lambda>_. True)) \<lparr>remote_addr = ''127.0.0.1'', form_long_url = Some ''example.com/x'',
        form_custom_code = Some '' abc '', req_time = 0, req_random = (\<lambda>_. 0)\<rparr> \<lparr>rate_bucket = Map.empty, urls = [\<lparr>code = ''abc'', long_url = ''https://example.com/x'',
        created_at = 0, clicks = SqlInteger 0, last_accessed = None\<rparr>]\<rparr>) = Inl CodeTaken
   \<and> urls (snd (create (py_urlparse (\<lambda>_. True)) \<lparr>remote_addr = ''127.0.0.1'', form_long_url = Some ''example.com/x'',
        form_custom_code = Some '' abc '', req_time = 0, req_random = (\<lambda>_. 0)\<rparr> \<lparr>rate_bucket = Map.empty, urls = [\<lparr>code = ''abc'', long_url = ''https://example.com/x'',
        created_at = 0, clicks = SqlInteger 0, last_accessed = None\<rparr>]\<rparr>)) = urls \<lparr>rate_bucket = Map.empty, urls = [\<lparr>code = ''abc'', long_url = ''https://example.com/x'',
        created_at = 0, clicks = SqlInteger 0, last_accessed = None\<rparr>]\<rparr>
   \<and> distinct (map code (urls \<lparr>rate_bucket = Map.empty, urls = [\<lparr>code = ''abc'', long_url = ''https://example.com/x'',
        created_at = 0, clicks = SqlInteger 0, last_accessed = None\<rparr>]\<rparr>))
   \<and> distinct (map code (urls (run (py_urlparse (\<lambda>_. True)) flask_redirect
        [Shorten \<lparr>remote_addr = ''127.0.0.1'', form_long_url = Some ''example.com/x'',
        form_custom_code = Some '' abc '', req_time = 0, req_random = (\<lambda>_. 0)\<rparr>, Resolve False 1000000 ''abc'', Shorten \<lparr>remote_addr = ''127.0.0.1'', form_long_url = Some ''example.com/x'',
        form_custom_code = None, req_time = 0, req_random = (\<lambda>_. 0)\<rparr>] \<lparr>rate_bucket = Map.empty, urls = [\<lparr>code = ''abc'', long_url = ''https://example.com/x'',
        created_at = 0, clicks = SqlInteger 0, last_accessed = None\<rparr>]\<rparr>)))"
proof -
  let ?ops = "[Shorten \<lparr>remote_addr = ''127.0.0.1'', form_long_url = Some ''example.com/x'',
        form_custom_code = Some '' abc '', req_time = 0, req_random = (\<lambda>_. 0)\<rparr>, Resolve False 1000000 ''abc'', Shorten \<lparr>remote_addr = ''127.0.0.1'', form_long_url = Some ''example.com/x'',
        form_custom_code = None, req_time = 0, req_random = (\<lambda>_. 0)\<rparr>]"
  have m: "''abc'' \<in> set (map code [\<lparr>code = ''abc'', long_url = ''https://example.com/x'',
        created_at = 0, clicks = SqlInteger 0, last_accessed = None\<rparr>])" by simp
  have t: "fst (create (py_urlparse (\<lambda>_. True)) \<lparr>remote_addr = ''127.0.0.1'', form_long_url = Some ''example.com/x'',
        form_custom_code = Some '' abc '', req_time = 0, req_random = (\<lambda>_. 0)\<rparr> \<lparr>rate_bucket = Map.empty, urls = [\<lparr>code = ''abc'', long_url = ''https://example.com/x'',
        created_at = 0, clicks = SqlInteger 0, last_accessed = None\<rparr>]\<rparr>) = Inl CodeTaken" by (rule custom_taken_example(1))
  have d: "distinct (map code (urls \<lparr>rate_bucket = Map.empty, urls = [\<lparr>code = ''abc'', long_url = ''https://example.com/x'',
        created_at = 0, clicks = SqlInteger 0, last_accessed = None\<rparr>]\<rparr>))" by simp
  note th = codes_stay_unique [of "''abc''" "[\<lparr>code = ''abc'', long_url = ''https://example.com/x'',
        created_at = 0, clicks = SqlInteger 0, last_accessed = None\<rparr>]" 0 "''https://example.org/''" "py_urlparse (\<lambda>_. True)" "\<lparr>remote_addr = ''127.0.0.1'', form_long_url = Some ''example.com/x'',
        form_custom_code = Some '' abc '', req_time = 0, req_random = (\<lambda>_. 0)\<rparr>" "\<lparr>rate_bucket = Map.empty, urls = [\<lparr>code = ''abc'', long_url = ''https://example.com/x'',
        created_at = 0, clicks = SqlInteger 0, last_accessed = None\<rparr>]\<rparr>" flask_redirect ?ops]
  from th m have 1: "insert_url 0 ''abc'' ''https://example.org/'' [\<lparr>code = ''abc'', long_url = ''https://example.com/x'',
        created_at = 0, clicks = SqlInteger 0, last_accessed = None\<rparr>] = None" by blast
  from th t have 2: "urls (snd (create (py_urlparse (\<lambda>_. True)) \<lparr>remote_addr = ''127.0.0.1'', form_long_url = Some ''example.com/x'',
        form_custom_code = Some '' abc '', req_time = 0, req_random = (\<lambda>_. 0)\<rparr> \<lparr>rate_bucket = Map.empty, urls = [\<lparr>code = ''abc'', long_url = ''https://example.com/x'',
        created_at = 0, clicks = SqlInteger 0, last_accessed = None\<rparr>]\<rparr>)) = urls \<lparr>rate_bucket = Map.empty, urls = [\<lparr>code = ''abc'', long_url = ''https://example.com/x'',
        created_at = 0, clicks = SqlInteger 0, last_accessed = None\<rparr>]\<rparr>" by blast
  from th d have 3: "distinct (map code (urls (run (py_urlparse (\<lambda>_. True)) flask_redirect ?ops \<lparr>rate_bucket = Map.empty, urls = [\<lparr>code = ''abc'', long_url = ''https://example.com/x'',
        created_at = 0, clicks = SqlInteger 0, last_accessed = None\<rparr>]\<rparr>)))" by blast
  from m 1 t 2 d 3 show ?thesis by blast
qed

lemma normalize_newline:
  "normalize_url (py_urlparse (\<lambda>_. True)) ''http://a.com/\<newline>x'' = Inr ''http://a.com/\<newline>x''"
  by (simp add: py_defs)

lemma created_newline_row:
  "urls (snd (create (py_urlparse (\<lambda>_. True)) \<lparr>remote_addr = ''127.0.0.1'', form_long_url = Some ''http://a.com/\<newline>x'',
        form_custom_code = Some ''abc'', req_time = 0, req_random = (\<lambda>_. 0)\<rparr> init_state)) = [\<lparr>code = ''abc'', long_url = ''http://a.com/\<newline>x'',
        created_at = 0, clicks = SqlInteger 0, last_accessed = None\<rparr>]"
proof -
  let ?rq = "\<lparr>remote_addr = ''127.0.0.1'', form_long_url = Some ''http://a.com/\<newline>x'',
        form_custom_code = Some ''abc'', req_time = 0, req_random = (\<lambda>_. 0)\<rparr>"
  let ?st = "init_state"
  have a: "\<not> fst (rate_limited (req_time ?rq) (''create:'' @ remote_addr ?rq) (rate_bucket ?st))"
    by (simp add: admitted_init init_state_def)
  have n: "normalize_url (py_urlparse (\<lambda>_. True)) (form_get (form_long_url ?rq))
             = Inr ''http://a.com/\<newline>x''"
    by (simp add: form_get_def normalize_newline)
  have c: "strip (form_get (form_custom_code ?rq)) = ''abc''"
    by (simp add: form_get_def strip_def isspace_def)
  have m: "''abc'' \<noteq> [] \<longrightarrow> CUSTOM_CODE_REGEX_match ''abc''" by (simp add: match_abc)
  have r: "''abc'' = (if ''abc'' \<noteq> [] then ''abc'' else retry_loop (req_random ?rq) (urls ?st) 0 10 [])"
    by simp
  from create_insert(2) [OF a n c m r] show ?thesis
    by (simp add: init_state_def datetime_now_def)
qed

text \<open>
  Claim C6 as stated fails. A URL with a line feed inside passes \<open>normalize_url\<close> and is
  stored by \<open>create\<close>; every redirect of its code then counts the click and raises instead
  of returning the URL. And a counter that stands at the largest 64-bit integer is not
  raised by one: it turns into a \<open>REAL\<close> and stays one.
\<close>

theorem resolve_n_times_counterexample:
  "urls (snd (create (py_urlparse (\<lambda>_. True)) \<lparr>remote_addr = ''127.0.0.1'', form_long_url = Some ''http://a.com/\<newline>x'',
        form_custom_code = Some ''abc'', req_time = 0, req_random = (\<lambda>_. 0)\<rparr> init_state)) = [\<lparr>code = ''abc'', long_url = ''http://a.com/\<newline>x'',
        created_at = 0, clicks = SqlInteger 0, last_accessed = None\<rparr>]
   \<and> go_seq flask_redirect [1000000, 2000000] ''abc'' [\<lparr>code = ''abc'', long_url = ''http://a.com/\<newline>x'',
        created_at = 0, clicks = SqlInteger 0, last_accessed = None\<rparr>]
       = ([Uncaught, Uncaught],
          [\<lparr>code = ''abc'', long_url = ''http://a.com/\<newline>x'', created_at = 0,
            clicks = SqlInteger 2, last_accessed = Some 2\<rparr>])
   \<and> go_seq flask_redirect [1000000, 2000000] ''abc''
        [\<lparr>code = ''abc'', long_url = ''https://example.com/x'', created_at = 0,
          clicks = SqlInteger 9223372036854775807, last_accessed = None\<rparr>]
       = ([Redirect ''https://example.com/x'', Redirect ''https://example.com/x''],
          [\<lparr>code = ''abc'', long_url = ''https://example.com/x'', created_at = 0,
            clicks = SqlReal, last_accessed = Some 2\<rparr>])"
proof -
  have 1: "go_seq flask_redirect [1000000, 2000000] ''abc'' [\<lparr>code = ''abc'', long_url = ''http://a.com/\<newline>x'',
        created_at = 0, clicks = SqlInteger 0, last_accessed = None\<rparr>]
       = ([Uncaught, Uncaught],
          [\<lparr>code = ''abc'', long_url = ''http://a.com/\<newline>x'', created_at = 0,
            clicks = SqlInteger 2, last_accessed = Some 2\<rparr>])"
    by (simp add: go_def select_by_code_def update_clicks_def flask_redirect_def
          sql_plus_one_def datetime_now_def)
  have 2: "go_seq flask_redirect [1000000, 2000000] ''abc''
        [\<lparr>code = ''abc'', long_url = ''https://example.com/x'', created_at = 0,
          clicks = SqlInteger 9223372036854775807, last_accessed = None\<rparr>]
       = ([Redirect ''https://example.com/x'', Redirect ''https://example.com/x''],
          [\<lparr>code = ''abc'', long_url = ''https://example.com/x'', created_at = 0,
            clicks = SqlReal, last_accessed = Some 2\<rparr>])"
    by (simp add: go_def select_by_code_def update_clicks_def flask_redirect_def
          sql_plus_one_def datetime_now_def)
  from created_newline_row 1 2 show ?thesis by blast
qed

lemma random_taken_example:
  "fst (create (py_urlparse (\<lambda>_. True)) \<lparr>remote_addr = ''127.0.0.1'', form_long_url = Some ''example.com/x'',
        form_custom_code = None, req_time = 0, req_random = (\<lambda>_. 0)\<rparr> \<lparr>rate_bucket = Map.empty, urls = [\<lparr>code = ''aaaaaa'', long_url = ''https://example.org/'',
        created_at = 0, clicks = SqlInteger 0, last_accessed = None\<rparr>]\<rparr>) = Inl CodeTaken"
proof -
  let ?rq = "\<lparr>remote_addr = ''127.0.0.1'', form_long_url = Some ''example.com/x'',
        form_custom_code = None, req_time = 0, req_random = (\<lambda>_. 0)\<rparr>"
  let ?st = "\<lparr>rate_bucket = Map.empty, urls = [\<lparr>code = ''aaaaaa'', long_url = ''https://example.org/'',
        created_at = 0, clicks = SqlInteger 0, last_accessed = None\<rparr>]\<rparr>"
  have a: "\<not> fst (rate_limited (req_time ?rq) (''create:'' @ remote_addr ?rq) (rate_bucket ?st))"
    by (simp add: admitted_init)
  have n: "normalize_url (py_urlparse (\<lambda>_. True)) (form_get (form_long_url ?rq)) = Inr ''https://example.com/x''"
    by (simp add: form_get_def normalize_example)
  have c: "strip (form_get (form_custom_code ?rq)) = []"
    by (simp add: form_get_def strip_def)
  have m: "[] \<noteq> [] \<longrightarrow> CUSTOM_CODE_REGEX_match []" by simp
  have r: "''aaaaaa'' = (if [] \<noteq> [] then [] else retry_loop (req_random ?rq) (urls ?st) 0 10 [])"
    by (simp add: retry_loop_zero)
  from create_insert(1) [OF a n c m r]
  show "fst (create (py_urlparse (\<lambda>_. True)) ?rq ?st) = Inl CodeTaken" by simp
qed

lemma custom_aaaaaa_example:
  "fst (create (py_urlparse (\<lambda>_. True)) \<lparr>remote_addr = ''127.0.0.1'', form_long_url = Some ''example.com/x'',
        form_custom_code = Some ''aaaaaa'', req_time = 0, req_random = (\<lambda>_. 0)\<rparr> \<lparr>rate_bucket = Map.empty, urls = [\<lparr>code = ''aaaaaa'', long_url = ''https://example.org/'',
        created_at = 0, clicks = SqlInteger 0, last_accessed = None\<rparr>]\<rparr>) = Inl CodeTaken"
proof -
  let ?rq = "\<lparr>remote_addr = ''127.0.0.1'', form_long_url = Some ''example.com/x'',
        form_custom_code = Some ''aaaaaa'', req_time = 0, req_random = (\<lambda>_. 0)\<rparr>"
  let ?st = "\<lparr>rate_bucket = Map.empty, urls = [\<lparr>code = ''aaaaaa'', long_url = ''https://example.org/'',
        created_at = 0, clicks = SqlInteger 0, last_accessed = None\<rparr>]\<rparr>"
  have a: "\<not> fst (rate_limited (req_time ?rq) (''create:'' @ remote_addr ?rq) (rate_bucket ?st))"
    by (simp add: admitted_init)
  have n: "normalize_url (py_urlparse (\<lambda>_. True)) (form_get (form_long_url ?rq)) = Inr ''https://example.com/x''"
    by (simp add: form_get_def normalize_example)
  have c: "strip (form_get (form_custom_code ?rq)) = ''aaaaaa''"
    by (simp add: form_get_def strip_aaaaaa)
  have m: "''aaaaaa'' \<noteq> [] \<longrightarrow> CUSTOM_CODE_REGEX_match ''aaaaaa''" by (simp add: match_aaaaaa)
  have r: "''aaaaaa'' = (if ''aaaaaa'' \<noteq> [] then ''aaaaaa'' else retry_loop (req_random ?rq) (urls ?st) 0 10 [])"
    by simp
  from create_insert(1) [OF a n c m r]
  show "fst (create (py_urlparse (\<lambda>_. True)) ?rq ?st) = Inl CodeTaken" by simp
qed

lemma all_attempts_taken_example:
  "select_by_code [\<lparr>code = ''aaaaaa'', long_url = ''https://example.org/'',
        created_at = 0, clicks = SqlInteger 0, last_accessed = None\<rparr>] (random_code (\<lambda>_. 0) k CODE_LEN) \<noteq> None"
  by (simp add: random_code_zero select_by_code_def)

text \<open>
  Claim C1 as stated fails: the store holds \<open>aaaaaa\<close>, every one of the ten draws yields
  \<open>aaaaaa\<close>, and the answer is \<open>CodeTaken\<close>, the same answer that the custom code \<open>aaaaaa\<close>
  gets; no separate error for exhausted retries exists.
\<close>

theorem create_all_attempts_collide_counterexample:
  "list_all (\<lambda>i. select_by_code [\<lparr>code = ''aaaaaa'', long_url = ''https://example.org/'',
        created_at = 0, clicks = SqlInteger 0, last_accessed = None\<rparr>] (random_code (\<lambda>_. 0) (i * CODE_LEN) CODE_LEN) \<noteq> None)
     [0, 1, 2, 3, 4, 5, 6, 7, 8, 9]
   \<and> fst (create (py_urlparse (\<lambda>_. True)) \<lparr>remote_addr = ''127.0.0.1'', form_long_url = Some ''example.com/x'',
        form_custom_code = None, req_time = 0, req_random = (\<lambda>_. 0)\<rparr> \<lparr>rate_bucket = Map.empty, urls = [\<lparr>code = ''aaaaaa'', long_url = ''https://example.org/'',
        created_at = 0, clicks = SqlInteger 0, last_accessed = None\<rparr>]\<rparr>) = Inl CodeTaken
   \<and> fst (create (py_urlparse (\<lambda>_. True)) \<lparr>remote_addr = ''127.0.0.1'', form_long_url = Some ''example.com/x'',
        form_custom_code = Some ''aaaaaa'', req_time = 0, req_random = (\<lambda>_. 0)\<rparr> \<lparr>rate_bucket = Map.empty, urls = [\<lparr>code = ''aaaaaa'', long_url = ''https://example.org/'',
        created_at = 0, clicks = SqlInteger 0, last_accessed = None\<rparr>]\<rparr>) = Inl CodeTaken"
proof -
  have "list_all (\<lambda>i. select_by_code [\<lparr>code = ''aaaaaa'', long_url = ''https://example.org/'',
        created_at = 0, clicks = SqlInteger 0, last_accessed = None\<rparr>] (random_code (\<lambda>_. 0) (i * CODE_LEN) CODE_LEN) \<noteq> None)
     [0, 1, 2, 3, 4, 5, 6, 7, 8, 9]"
    by (simp only: list.pred_inject all_attempts_taken_example simp_thms)
  with random_taken_example custom_aaaaaa_example show ?thesis by blast
qed

theorem create_all_attempts_collide_witness:
  "fst (create (py_urlparse (\<lambda>_. True)) \<lparr>remote_addr = ''127.0.0.1'', form_long_url = Some ''example.com/x'',
        form_custom_code = None, req_time = 0, req_random = (\<lambda>_. 0)\<rparr> \<lparr>rate_bucket = Map.empty, urls = [\<lparr>code = ''aaaaaa'', long_url = ''https://example.org/'',
        created_at = 0, clicks = SqlInteger 0, last_accessed = None\<rparr>]\<rparr>) = Inl CodeTaken
   \<and> urls (snd (create (py_urlparse (\<lambda>_. True)) \<lparr>remote_addr = ''127.0.0.1'', form_long_url = Some ''example.com/x'',
        form_custom_code = None, req_time = 0, req_random = (\<lambda>_. 0)\<rparr> \<lparr>rate_bucket = Map.empty, urls = [\<lparr>code = ''aaaaaa'', long_url = ''https://example.org/'',
        created_at = 0, clicks = SqlInteger 0, last_accessed = None\<rparr>]\<rparr>)) = [\<lparr>code = ''aaaaaa'', long_url = ''https://example.org/'',
        created_at = 0, clicks = SqlInteger 0, last_accessed = None\<rparr>]"
proof -
  let ?rq = "\<lparr>remote_addr = ''127.0.0.1'', form_long_url = Some ''example.com/x'',
        form_custom_code = None, req_time = 0, req_random = (\<lambda>_. 0)\<rparr>"
  let ?st = "\<lparr>rate_bucket = Map.empty, urls = [\<lparr>code = ''aaaaaa'', long_url = ''https://example.org/'',
        created_at = 0, clicks = SqlInteger 0, last_accessed = None\<rparr>]\<rparr>"
  have a: "\<not> fst (rate_limited (req_time ?rq) (''create:'' @ remote_addr ?rq) (rate_bucket ?st))"
    by (simp add: admitted_init)
  have n: "normalize_url (py_urlparse (\<lambda>_. True)) (form_get (form_long_url ?rq)) = Inr ''https://example.com/x''"
    by (simp add: form_get_def normalize_example)
  have c: "strip (form_get (form_custom_code ?rq)) = []"
    by (simp add: form_get_def strip_def)
  have t: "\<forall>i<10. select_by_code (urls ?st) (random_code (req_random ?rq) (i * CODE_LEN) CODE_LEN) \<noteq> None"
    by (simp add: all_attempts_taken_example)
  from create_all_attempts_collide [OF a n c t] show ?thesis by simp
qed

text \<open>
  Claim C3, failing input. A shorten request whose URL field holds only spaces is served:
  \<open>normalize_url\<close> returns the empty string, no later check looks at it, and a row with an
  empty \<open>long_url\<close> is stored, whatever the parser is.
\<close>

theorem create_blank_url_persisted:
  "fst (create P \<lparr>remote_addr = ''127.0.0.1'', form_long_url = Some ''   '',
        form_custom_code = None, req_time = 0, req_random = (\<lambda>_. 0)\<rparr> init_state) = Inr (''aaaaaa'', [])
   \<and> urls (snd (create P \<lparr>remote_addr = ''127.0.0.1'', form_long_url = Some ''   '',
        form_custom_code = None, req_time = 0, req_random = (\<lambda>_. 0)\<rparr> init_state))
       = [\<lparr>code = ''aaaaaa'', long_url = [], created_at = 0, clicks = SqlInteger 0, last_accessed = None\<rparr>]"
proof -
  let ?rq = "\<lparr>remote_addr = ''127.0.0.1'', form_long_url = Some ''   '',
        form_custom_code = None, req_time = 0, req_random = (\<lambda>_. 0)\<rparr>"
  let ?st = "init_state"
  have a: "\<not> fst (rate_limited (req_time ?rq) (''create:'' @ remote_addr ?rq) (rate_bucket ?st))"
    by (simp add: admitted_init init_state_def)
  have n: "normalize_url P (form_get (form_long_url ?rq)) = Inr []"
    by (simp add: form_get_def normalize_blank strip_spaces)
  have c: "strip (form_get (form_custom_code ?rq)) = []"
    by (simp add: form_get_def strip_def)
  have m: "[] \<noteq> [] \<longrightarrow> CUSTOM_CODE_REGEX_match []" by simp
  have r: "''aaaaaa'' = (if [] \<noteq> [] then [] else retry_loop (req_random ?rq) (urls ?st) 0 10 [])"
    by (simp add: retry_loop_zero)
  from create_insert(1) [OF a n c m r] create_insert(2) [OF a n c m r]
  show ?thesis by (simp add: init_state_def datetime_now_def)
qed

text \<open>
  Claim C7, amended. For an admitted request whose URL normalises and whose custom code,
  after trimming, is the non-empty string \<open>cc\<close>: the answer is \<open>InvalidCodeFormat\<close> exactly
  when \<open>cc\<close> is not 3 to 32 characters of the class \<open>[A-Za-z0-9_-]\<close>, and then the table is
  unchanged; a well-formed \<open>cc\<close> that is stored gives \<open>CodeTaken\<close> and an unchanged table; a
  well-formed \<open>cc\<close> that is not stored is inserted with the normalised URL. The random
  source is never consulted.
\<close>

theorem create_custom_code:
  assumes "\<not> fst (rate_limited (req_time rq) (''create:'' @ remote_addr rq) (rate_bucket st))"
    and "normalize_url P (form_get (form_long_url rq)) = Inr u"
    and "strip (form_get (form_custom_code rq)) = cc"
    and "cc \<noteq> []"
  shows "(fst (create P rq st) = Inl InvalidCodeFormat \<longleftrightarrow> \<not> code_body cc)
     \<and> (\<not> code_body cc \<longrightarrow> urls (snd (create P rq st)) = urls st)
     \<and> (code_body cc \<and> cc \<in> set (map code (urls st)) \<longrightarrow>
          fst (create P rq st) = Inl CodeTaken \<and> urls (snd (create P rq st)) = urls st)
     \<and> (code_body cc \<and> cc \<notin> set (map code (urls st)) \<longrightarrow>
          fst (create P rq st) = Inr (cc, u)
          \<and> urls (snd (create P rq st)) =
              urls st @ [\<lparr>code = cc, long_url = u, created_at = datetime_now (req_time rq),
                           clicks = SqlInteger 0, last_accessed = None\<rparr>])
     \<and> create P (rq\<lparr>req_random := r\<rparr>) st = create P rq st"
proof -
  have m: "CUSTOM_CODE_REGEX_match cc = code_body cc"
    using regex_strip [of "form_get (form_custom_code rq)"] assms(3) by simp
  have same: "create P (rq\<lparr>req_random := r\<rparr>) st = create P rq st"
    using assms(3,4) by (simp add: create_unfold Let_def split: sum.splits)
  show ?thesis
  proof (cases "code_body cc")
    case False
    with m have "\<not> CUSTOM_CODE_REGEX_match cc" by simp
    from create_bad_code [OF assms(1-4) this] False same show ?thesis by simp
  next
    case True
    with m have w: "cc \<noteq> [] \<longrightarrow> CUSTOM_CODE_REGEX_match cc" by simp
    have c: "cc = (if cc \<noteq> [] then cc else retry_loop (req_random rq) (urls st) 0 10 [])"
      using assms(4) by simp
    from create_insert(1) [OF assms(1-3) w c] create_insert(2) [OF assms(1-3) w c] True same
    show ?thesis by simp
  qed
qed

text \<open>
  Claim C7 as stated fails: the supplied string \<open>" abc "\<close> does not match the pattern, yet
  the request is served under the code \<open>abc\<close>.
\<close>

theorem create_custom_code_counterexample:
  "\<not> CUSTOM_CODE_REGEX_match '' abc ''
   \<and> fst (create (py_urlparse (\<lambda>_. True)) \<lparr>remote_addr = ''127.0.0.1'', form_long_url = Some ''example.com/x'',
        form_custom_code = Some '' abc '', req_time = 0, req_random = (\<lambda>_. 0)\<rparr> init_state) = Inr (''abc'', ''https://example.com/x'')"
proof -
  let ?rq = "\<lparr>remote_addr = ''127.0.0.1'', form_long_url = Some ''example.com/x'',
        form_custom_code = Some '' abc '', req_time = 0, req_random = (\<lambda>_. 0)\<rparr>"
  let ?st = "init_state"
  have x: "\<not> CUSTOM_CODE_REGEX_match '' abc ''"
    by (simp add: CUSTOM_CODE_REGEX_match_def code_body_def code_class_def ascii_lowercase_def
          ascii_uppercase_def digits_def)
  have a: "\<not> fst (rate_limited (req_time ?rq) (''create:'' @ remote_addr ?rq) (rate_bucket ?st))"
    by (simp add: admitted_init init_state_def)
  have n: "normalize_url (py_urlparse (\<lambda>_. True)) (form_get (form_long_url ?rq)) = Inr ''https://example.com/x''"
    by (simp add: form_get_def normalize_example)
  have c: "strip (form_get (form_custom_code ?rq)) = ''abc''"
    by (simp add: form_get_def strip_abc)
  have m: "''abc'' \<noteq> [] \<longrightarrow> CUSTOM_CODE_REGEX_match ''abc''" by (simp add: match_abc)
  have r: "''abc'' = (if ''abc'' \<noteq> [] then ''abc'' else retry_loop (req_random ?rq) (urls ?st) 0 10 [])"
    by simp
  from create_insert(1) [OF a n c m r]
  have "fst (create (py_urlparse (\<lambda>_. True)) ?rq ?st) = Inr (''abc'', ''https://example.com/x'')"
    by (simp add: init_state_def)
  with x show ?thesis by blast
qed

lemma body_abc: "code_body ''abc''"
  by (simp add: code_body_def code_class_def ascii_lowercase_def)

lemma body_ab: "\<not> code_body ''ab''"
  by (simp add: code_body_def)

theorem create_custom_code_witness:
  "fst (create (py_urlparse (\<lambda>_. True)) \<lparr>remote_addr = ''127.0.0.1'', form_long_url = Some ''example.com/x'',
        form_custom_code = Some '' abc '', req_time = 0, req_random = (\<lambda>_. 0)\<rparr> \<lparr>rate_bucket = Map.empty, urls = [\<lparr>code = ''abc'', long_url = ''https://example.com/x'',
        created_at = 0, clicks = SqlInteger 0, last_accessed = None\<rparr>]\<rparr>) = Inl CodeTaken
   \<and> urls (snd (create (py_urlparse (\<lambda>_. True)) \<lparr>remote_addr = ''127.0.0.1'', form_long_url = Some ''example.com/x'',
        form_custom_code = Some '' abc '', req_time = 0, req_random = (\<lambda>_. 0)\<rparr> \<lparr>rate_bucket = Map.empty, urls = [\<lparr>code = ''abc'', long_url = ''https://example.com/x'',
        created_at = 0, clicks = SqlInteger 0, last_accessed = None\<rparr>]\<rparr>)) = [\<lparr>code = ''abc'', long_url = ''https://example.com/x'',
        created_at = 0, clicks = SqlInteger 0, last_accessed = None\<rparr>]
   \<and> fst (create (py_urlparse (\<lambda>_. True)) \<lparr>remote_addr = ''127.0.0.1'', form_long_url = Some ''example.com/x'',
        form_custom_code = Some '' abc '', req_time = 0, req_random = (\<lambda>_. 0)\<rparr> init_state) = Inr (''abc'', ''https://example.com/x'')
   \<and> urls (snd (create (py_urlparse (\<lambda>_. True)) \<lparr>remote_addr = ''127.0.0.1'', form_long_url = Some ''example.com/x'',
        form_custom_code = Some '' abc '', req_time = 0, req_random = (\<lambda>_. 0)\<rparr> init_state)) = [\<lparr>code = ''abc'', long_url = ''https://example.com/x'',
        created_at = 0, clicks = SqlInteger 0, last_accessed = None\<rparr>]
   \<and> fst (create (py_urlparse (\<lambda>_. True)) \<lparr>remote_addr = ''127.0.0.1'', form_long_url = Some ''example.com/x'',
        form_custom_code = Some ''ab'', req_time = 0, req_random = (\<lambda>_. 0)\<rparr> \<lparr>rate_bucket = Map.empty, urls = [\<lparr>code = ''abc'', long_url = ''https://example.com/x'',
        created_at = 0, clicks = SqlInteger 0, last_accessed = None\<rparr>]\<rparr>) = Inl InvalidCodeFormat
   \<and> urls (snd (create (py_urlparse (\<lambda>_. True)) \<lparr>remote_addr = ''127.0.0.1'', form_long_url = Some ''example.com/x'',
        form_custom_code = Some ''ab'', req_time = 0, req_random = (\<lambda>_. 0)\<rparr> \<lparr>rate_bucket = Map.empty, urls = [\<lparr>code = ''abc'', long_url = ''https://example.com/x'',
        created_at = 0, clicks = SqlInteger 0, last_accessed = None\<rparr>]\<rparr>)) = [\<lparr>code = ''abc'', long_url = ''https://example.com/x'',
        created_at = 0, clicks = SqlInteger 0, last_accessed = None\<rparr>]"
proof -
  let ?rq = "\<lparr>remote_addr = ''127.0.0.1'', form_long_url = Some ''example.com/x'',
        form_custom_code = Some '' abc '', req_time = 0, req_random = (\<lambda>_. 0)\<rparr>"
  let ?rq2 = "\<lparr>remote_addr = ''127.0.0.1'', form_long_url = Some ''example.com/x'',
        form_custom_code = Some ''ab'', req_time = 0, req_random = (\<lambda>_. 0)\<rparr>"
  let ?st = "\<lparr>rate_bucket = Map.empty, urls = [\<lparr>code = ''abc'', long_url = ''https://example.com/x'',
        created_at = 0, clicks = SqlInteger 0, last_accessed = None\<rparr>]\<rparr>"
  have a: "\<not> fst (rate_limited (req_time ?rq) (''create:'' @ remote_addr ?rq) (rate_bucket ?st))"
    by (simp add: admitted_init)
  have a0: "\<not> fst (rate_limited (req_time ?rq) (''create:'' @ remote_addr ?rq) (rate_bucket init_state))"
    by (simp add: admitted_init init_state_def)
  have a2: "\<not> fst (rate_limited (req_time ?rq2) (''create:'' @ remote_addr ?rq2) (rate_bucket ?st))"
    by (simp add: admitted_init)
  have n: "normalize_url (py_urlparse (\<lambda>_. True)) (form_get (form_long_url ?rq)) = Inr ''https://example.com/x''"
    by (simp add: form_get_def normalize_example)
  have n2: "normalize_url (py_urlparse (\<lambda>_. True)) (form_get (form_long_url ?rq2)) = Inr ''https://example.com/x''"
    by (simp add: form_get_def normalize_example)
  have c: "strip (form_get (form_custom_code ?rq)) = ''abc''"
    by (simp add: form_get_def strip_abc)
  have c2: "strip (form_get (form_custom_code ?rq2)) = ''ab''"
    by (simp add: form_get_def strip_def isspace_def)
  have ne: "''abc'' \<noteq> []" "''ab'' \<noteq> []" by simp_all
  have t: "''abc'' \<in> set (map code (urls ?st))" by simp
  have f: "''abc'' \<notin> set (map code (urls init_state))" by (simp add: init_state_def)
  from create_custom_code [OF a n c ne(1)] body_abc t
  have 1: "fst (create (py_urlparse (\<lambda>_. True)) ?rq ?st) = Inl CodeTaken \<and> urls (snd (create (py_urlparse (\<lambda>_. True)) ?rq ?st)) = urls ?st"
    by blast
  from create_custom_code [OF a0 n c ne(1)] body_abc f
  have 2: "fst (create (py_urlparse (\<lambda>_. True)) ?rq init_state) = Inr (''abc'', ''https://example.com/x'')
           \<and> urls (snd (create (py_urlparse (\<lambda>_. True)) ?rq init_state)) =
              urls init_state @ [\<lparr>code = ''abc'', long_url = ''https://example.com/x'',
                 created_at = datetime_now (req_time ?rq), clicks = SqlInteger 0, last_accessed = None\<rparr>]"
    by blast
  from create_custom_code [OF a2 n2 c2 ne(2)] body_ab
  have 3: "fst (create (py_urlparse (\<lambda>_. True)) ?rq2 ?st) = Inl InvalidCodeFormat \<and> urls (snd (create (py_urlparse (\<lambda>_. True)) ?rq2 ?st)) = urls ?st"
    by blast
  from 1 2 3 show ?thesis by (simp add: init_state_def datetime_now_def)
qed

text \<open>
  Claim C10. The admission check is the first thing \<open>create\<close> does: a denied request gets
  \<open>TooManyRequests\<close> whatever its fields hold, and an admitted request leaves the caller's
  bucket as the pruned window with its own instant appended, one entry more than the
  window held, also when the request then fails; a failed request stores no row.
\<close>

theorem create_consumes_admission:
  "(fst (rate_limited (req_time rq) (''create:'' @ remote_addr rq) (rate_bucket st)) \<longrightarrow>
      fst (create P rq st) = Inl TooManyRequests \<and> urls (snd (create P rq st)) = urls st)
   \<and> (\<not> fst (rate_limited (req_time rq) (''create:'' @ remote_addr rq) (rate_bucket st)) \<longrightarrow>
      bucket_get (rate_bucket (snd (create P rq st))) (''create:'' @ remote_addr rq)
        = filter (\<lambda>t. req_time rq - timedelta_seconds RATE_LIMIT_WINDOW < t)
            (bucket_get (rate_bucket st) (''create:'' @ remote_addr rq)) @ [req_time rq]
      \<and> length (bucket_get (rate_bucket (snd (create P rq st))) (''create:'' @ remote_addr rq))
        = Suc (length (filter (\<lambda>t. req_time rq - timedelta_seconds RATE_LIMIT_WINDOW < t)
            (bucket_get (rate_bucket st) (''create:'' @ remote_addr rq)))))
   \<and> (\<forall>e. fst (create P rq st) = Inl e \<longrightarrow> urls (snd (create P rq st)) = urls st)"
proof (intro conjI impI allI)
  assume "fst (rate_limited (req_time rq) (''create:'' @ remote_addr rq) (rate_bucket st))"
  from create_limited [OF this, of P]
  show "fst (create P rq st) = Inl TooManyRequests" and "urls (snd (create P rq st)) = urls st"
    by simp_all
next
  assume adm: "\<not> fst (rate_limited (req_time rq) (''create:'' @ remote_addr rq) (rate_bucket st))"
  then have lt: "length (filter (\<lambda>t. req_time rq - timedelta_seconds RATE_LIMIT_WINDOW < t)
            (bucket_get (rate_bucket st) (''create:'' @ remote_addr rq))) < RATE_LIMIT_BURST"
    by (simp add: rate_limited_fst)
  show b: "bucket_get (rate_bucket (snd (create P rq st))) (''create:'' @ remote_addr rq)
        = filter (\<lambda>t. req_time rq - timedelta_seconds RATE_LIMIT_WINDOW < t)
            (bucket_get (rate_bucket st) (''create:'' @ remote_addr rq)) @ [req_time rq]"
    using lt by (simp add: create_rate_bucket rate_limited_bucket Let_def)
  show "length (bucket_get (rate_bucket (snd (create P rq st))) (''create:'' @ remote_addr rq))
        = Suc (length (filter (\<lambda>t. req_time rq - timedelta_seconds RATE_LIMIT_WINDOW < t)
            (bucket_get (rate_bucket st) (''create:'' @ remote_addr rq))))"
    unfolding b by simp
next
  fix e assume "fst (create P rq st) = Inl e"
  then show "urls (snd (create P rq st)) = urls st" by (rule create_error_urls)
qed

theorem create_consumes_admission_witness:
  "\<not> fst (rate_limited 0 ''create:127.0.0.1'' Map.empty)
   \<and> fst (create (py_urlparse (\<lambda>_. True)) \<lparr>remote_addr = ''127.0.0.1'', form_long_url = Some ''ftp://example.com/x'',
        form_custom_code = None, req_time = 0, req_random = (\<lambda>_. 0)\<rparr> init_state) = Inl UnsupportedScheme
   \<and> bucket_get (rate_bucket (snd (create (py_urlparse (\<lambda>_. True)) \<lparr>remote_addr = ''127.0.0.1'', form_long_url = Some ''ftp://example.com/x'',
        form_custom_code = None, req_time = 0, req_random = (\<lambda>_. 0)\<rparr> init_state))) ''create:127.0.0.1'' = [0]
   \<and> urls (snd (create (py_urlparse (\<lambda>_. True)) \<lparr>remote_addr = ''127.0.0.1'', form_long_url = Some ''ftp://example.com/x'',
        form_custom_code = None, req_time = 0, req_random = (\<lambda>_. 0)\<rparr> init_state)) = []
   \<and> fst (rate_limited 0 ''create:127.0.0.1'' [''create:127.0.0.1'' \<mapsto> [0, 0, 0, 0, 0, 0, 0, 0, 0, 0]])
   \<and> fst (create (py_urlparse (\<lambda>_. True)) \<lparr>remote_addr = ''127.0.0.1'', form_long_url = Some ''ftp://example.com/x'',
        form_custom_code = None, req_time = 0, req_random = (\<lambda>_. 0)\<rparr>
        \<lparr>rate_bucket = [''create:127.0.0.1'' \<mapsto> [0, 0, 0, 0, 0, 0, 0, 0, 0, 0]], urls = []\<rparr>)
       = Inl TooManyRequests"
proof -
  let ?rq = "\<lparr>remote_addr = ''127.0.0.1'', form_long_url = Some ''ftp://example.com/x'',
        form_custom_code = None, req_time = 0, req_random = (\<lambda>_. 0)\<rparr>"
  let ?full = "\<lparr>rate_bucket = [''create:127.0.0.1'' \<mapsto> [0, 0, 0, 0, 0, 0, 0, 0, 0, 0 :: int]], urls = []\<rparr>"
  have a': "\<not> fst (rate_limited 0 ''create:127.0.0.1'' Map.empty)" by (rule admitted_init)
  then have a: "\<not> fst (rate_limited (req_time ?rq) (''create:'' @ remote_addr ?rq) (rate_bucket init_state))"
    by (simp add: init_state_def)
  have n: "normalize_url (py_urlparse (\<lambda>_. True)) (form_get (form_long_url ?rq)) = Inl UnsupportedScheme"
    by (simp add: form_get_def py_defs)
  have e: "fst (create (py_urlparse (\<lambda>_. True)) ?rq init_state) = Inl UnsupportedScheme"
    using a n by (rule create_invalid_url)
  note th = create_consumes_admission [of ?rq init_state "py_urlparse (\<lambda>_. True)"]
  from th a have "bucket_get (rate_bucket (snd (create (py_urlparse (\<lambda>_. True)) ?rq init_state))) (''create:'' @ remote_addr ?rq)
        = filter (\<lambda>t. req_time ?rq - timedelta_seconds RATE_LIMIT_WINDOW < t)
            (bucket_get (rate_bucket init_state) (''create:'' @ remote_addr ?rq)) @ [req_time ?rq]"
    by blast
  then have b: "bucket_get (rate_bucket (snd (create (py_urlparse (\<lambda>_. True)) ?rq init_state))) ''create:127.0.0.1'' = [0]"
    by (simp add: init_state_def bucket_get_def)
  from th e have "urls (snd (create (py_urlparse (\<lambda>_. True)) ?rq init_state)) = urls init_state" by blast
  then have u: "urls (snd (create (py_urlparse (\<lambda>_. True)) ?rq init_state)) = []" by (simp add: init_state_def)
  have d': "fst (rate_limited 0 ''create:127.0.0.1'' [''create:127.0.0.1'' \<mapsto> [0, 0, 0, 0, 0, 0, 0, 0, 0, 0]])"
    by (simp add: rate_limited_fst bucket_get_def timedelta_seconds_def RATE_LIMIT_WINDOW_def RATE_LIMIT_BURST_def)
  then have d: "fst (rate_limited (req_time ?rq) (''create:'' @ remote_addr ?rq) (rate_bucket ?full))"
    by simp
  from create_consumes_admission [of ?rq ?full "py_urlparse (\<lambda>_. True)"] d
  have l: "fst (create (py_urlparse (\<lambda>_. True)) ?rq ?full) = Inl TooManyRequests" by blast
  from a' e b u d' l show ?thesis by blast
qed

end
